theory Spec2Isabelle
  imports Complex_Main "HOL-Library.Sublist"
begin

section \<open>Python strings\<close>

text \<open>
  A Python \<open>str\<close> is modelled as a \<open>string\<close> whose characters stand for the code
  points below 256. On that range \<open>str.isspace\<close>, \<open>str.strip\<close> and the regular
  expression class \<open>\s\<close> agree on the twelve characters below.
\<close>

definition py_isspace :: "char \<Rightarrow> bool" where
  "py_isspace c = (c \<in> set [CHR 0x09, CHR 0x0A, CHR 0x0B, CHR 0x0C, CHR 0x0D,
     CHR 0x1C, CHR 0x1D, CHR 0x1E, CHR 0x1F, CHR 0x20, CHR 0x85, CHR 0xA0])"

definition py_lstrip :: "string \<Rightarrow> string" where
  "py_lstrip s = dropWhile py_isspace s"

definition py_rstrip :: "string \<Rightarrow> string" where
  "py_rstrip s = rev (dropWhile py_isspace (rev s))"

definition py_strip :: "string \<Rightarrow> string" where
  "py_strip s = py_rstrip (py_lstrip s)"

text \<open>\<open>s.replace(old, new)\<close> for a non-empty \<open>old\<close>: the occurrences are found from
  the left and do not overlap.\<close>

fun py_replace :: "string \<Rightarrow> string \<Rightarrow> string \<Rightarrow> string" where
  "py_replace old new [] = []"
| "py_replace old new (c # cs) =
     (if old \<noteq> [] \<and> prefix old (c # cs)
      then new @ py_replace old new (drop (length old - 1) cs)
      else c # py_replace old new cs)"

text \<open>\<open>str(n)\<close> for a natural number and for an integer.\<close>

fun py_str_nat :: "nat \<Rightarrow> string" where
  "py_str_nat n =
     (if n < 10 then [''0123456789'' ! n]
      else py_str_nat (n div 10) @ [''0123456789'' ! (n mod 10)])"

declare py_str_nat.simps [simp del]

definition py_str_int :: "int \<Rightarrow> string" where
  "py_str_int i = (if i < 0 then CHR ''-'' # py_str_nat (nat (- i)) else py_str_nat (nat i))"

section \<open>Synthesis providers\<close>

subsection \<open>Exceptions, effects and the world\<close>

text \<open>
  An exception is a value. \<open>External\<close> stands for any exception (an instance of
  \<open>Exception\<close>) that a collaborator outside the providers raises: the vendor SDK, the
  download, the codec, the merge or the tagging.
\<close>

datatype exn =
  ValueError string
| RuntimeError string
| ImportError string
| External string

type_synonym audio = string

text \<open>
  The effects a provider has on its surroundings are recorded in order: a call of the
  vendor backend with the text sent, a \<open>time.sleep\<close> with its seconds, the merge of
  the chunk buffers into the output file and the tagging of that file.
\<close>

datatype event =
  Backend_call string
| Sleep nat
| Merge "audio list" string string "string list" bool
| Set_tags string

record world =
  calls :: nat
  trace :: "event list"

abbreviation world0 :: world where
  "world0 \<equiv> \<lparr>calls = 0, trace = []\<rparr>"

text \<open>
  The vendor backend is outside the repository and may answer differently each time it is
  called: \<open>be n text\<close> is what the call number \<open>n\<close> of the run (from 0) answers on
  \<open>text\<close>, an exception or a value.
\<close>

type_synonym 'r backend = "nat \<Rightarrow> string \<Rightarrow> exn + 'r"

definition call_backend :: "'r backend \<Rightarrow> string \<Rightarrow> world \<Rightarrow> (exn + 'r) \<times> world" where
  "call_backend be t w =
     (be (calls w) t, w\<lparr>calls := calls w + 1, trace := trace w @ [Backend_call t]\<rparr>)"

definition sleep :: "nat \<Rightarrow> world \<Rightarrow> world" where
  "sleep secs w = w\<lparr>trace := trace w @ [Sleep secs]\<rparr>"

subsection \<open>Bounded retry (MiniMax and Qwen)\<close>

definition MAX_RETRIES :: nat where
  "MAX_RETRIES = 4"

definition RETRY_BACKOFF_SECONDS :: nat where
  "RETRY_BACKOFF_SECONDS = 2"

text \<open>
  The body of \<open>_synthesize_with_retry\<close>, the same in both providers but for the name in
  the messages: the \<open>for attempt in range(1, MAX_RETRIES + 1)\<close> loop runs over the list
  of attempt numbers, \<open>last_error\<close> is threaded through, a success returns at once, and
  what follows the loop is the equation for the empty list. The log calls are left out.
\<close>

fun retry_loop ::
  "string \<Rightarrow> audio backend \<Rightarrow> string \<Rightarrow> string \<Rightarrow> nat list \<Rightarrow> exn option \<Rightarrow> world
     \<Rightarrow> (exn + audio) \<times> world" where
  "retry_loop name be t chunk_id [] last_error w =
     (case last_error of
        Some e \<Rightarrow> (Inl e, w)
      | None \<Rightarrow> (Inl (RuntimeError (name @ '': Failed to synthesize chunk '' @ chunk_id)), w))"
| "retry_loop name be t chunk_id (attempt # rest) last_error w =
     (case call_backend be t w of
        (Inr buffer, w') \<Rightarrow> (Inr buffer, w')
      | (Inl exc, w') \<Rightarrow>
          retry_loop name be t chunk_id rest (Some exc)
            (if attempt < MAX_RETRIES then sleep (RETRY_BACKOFF_SECONDS * attempt) w' else w'))"

definition minimax_synthesize_with_retry ::
  "audio backend \<Rightarrow> string \<Rightarrow> string \<Rightarrow> world \<Rightarrow> (exn + audio) \<times> world" where
  "minimax_synthesize_with_retry be t chunk_id w =
     retry_loop ''MinimaxTTS'' be t chunk_id [1 ..< MAX_RETRIES + 1] None w"

definition qwen_synthesize_with_retry ::
  "audio backend \<Rightarrow> string \<Rightarrow> string \<Rightarrow> world \<Rightarrow> (exn + audio) \<times> world" where
  "qwen_synthesize_with_retry be t chunk_id w =
     retry_loop ''Qwen3TTS'' be t chunk_id [1 ..< MAX_RETRIES + 1] None w"

subsection \<open>The chapter loop shared by the three providers\<close>

text \<open>
  \<open>split_text\<close>, \<open>merge_audio_segments\<close> and \<open>set_audio_tags\<close> live in a utility
  module that is not part of the sources at hand, and so does the class of the tags. They
  are parameters: the splitter as a function, the merge and the tagging by the exception
  they raise, if any. The tags keep the two fields the providers read.
\<close>

record audio_tags =
  idx :: int
  title :: string

record collaborators =
  split_text :: "string \<Rightarrow> nat \<Rightarrow> string \<Rightarrow> string list"
  merge_audio_segments :: "audio list \<Rightarrow> string \<Rightarrow> string \<Rightarrow> string list \<Rightarrow> bool \<Rightarrow> exn option"
  set_audio_tags :: "string \<Rightarrow> audio_tags \<Rightarrow> exn option"

definition chunk_id_of :: "audio_tags \<Rightarrow> nat \<Rightarrow> nat \<Rightarrow> string" where
  "chunk_id_of tags index n_chunks =
     ''chapter-'' @ py_str_int (idx tags) @ ''_'' @ title tags @ ''_chunk_'' @
     py_str_nat index @ ''_of_'' @ py_str_nat n_chunks"

definition py_enumerate1 :: "'a list \<Rightarrow> (nat \<times> 'a) list" where
  "py_enumerate1 xs = zip [1 ..< length xs + 1] xs"

text \<open>
  \<open>text_to_speech\<close> has the same shape in the three providers: skip a blank text,
  split, synthesize the chunks in order (an exception leaves the function at once), merge,
  tag. The providers differ in how a chunk is prepared (\<open>prep\<close>) and synthesized
  (\<open>synth\<close>, given the prepared text and the chunk identifier).
\<close>

type_synonym chunk_synth = "string \<Rightarrow> string \<Rightarrow> world \<Rightarrow> (exn + audio) \<times> world"

fun chunks_loop ::
  "(string \<Rightarrow> string) \<Rightarrow> chunk_synth \<Rightarrow> audio_tags \<Rightarrow> nat \<Rightarrow> (nat \<times> string) list \<Rightarrow>
     audio list \<Rightarrow> string list \<Rightarrow> world \<Rightarrow> (exn + audio list \<times> string list) \<times> world" where
  "chunks_loop prep synth tags n_chunks [] audio_segments chunk_ids w =
     (Inr (audio_segments, chunk_ids), w)"
| "chunks_loop prep synth tags n_chunks ((index, chunk) # rest) audio_segments chunk_ids w =
     (let chunk_id = chunk_id_of tags index n_chunks in
      case synth (prep chunk) chunk_id w of
        (Inl e, w') \<Rightarrow> (Inl e, w')
      | (Inr segment, w') \<Rightarrow>
          chunks_loop prep synth tags n_chunks rest
            (audio_segments @ [segment]) (chunk_ids @ [chunk_id]) w')"

definition merge_and_tag ::
  "collaborators \<Rightarrow> audio list \<Rightarrow> string list \<Rightarrow> string \<Rightarrow> string \<Rightarrow> audio_tags \<Rightarrow> world
     \<Rightarrow> (exn + unit) \<times> world" where
  "merge_and_tag co audio_segments chunk_ids output_file ext tags w =
     (let w2 = w\<lparr>trace := trace w @ [Merge audio_segments output_file ext chunk_ids True]\<rparr> in
      case merge_audio_segments co audio_segments output_file ext chunk_ids True of
        Some e \<Rightarrow> (Inl e, w2)
      | None \<Rightarrow>
          (let w3 = w2\<lparr>trace := trace w2 @ [Set_tags output_file]\<rparr> in
           case set_audio_tags co output_file tags of
             Some e \<Rightarrow> (Inl e, w3)
           | None \<Rightarrow> (Inr (), w3)))"

definition text_to_speech ::
  "collaborators \<Rightarrow> (string \<Rightarrow> string) \<Rightarrow> chunk_synth \<Rightarrow> nat \<Rightarrow> string \<Rightarrow> string \<Rightarrow>
     string \<Rightarrow> string \<Rightarrow> audio_tags \<Rightarrow> world \<Rightarrow> (exn + unit) \<times> world" where
  "text_to_speech co prep synth max_chars lang ext tx output_file tags w =
     (if py_strip tx = [] then (Inr (), w)
      else
        (let chunks = split_text co tx max_chars lang in
         case chunks_loop prep synth tags (length chunks) (py_enumerate1 chunks) [] [] w of
           (Inl e, w1) \<Rightarrow> (Inl e, w1)
         | (Inr (audio_segments, chunk_ids), w1) \<Rightarrow>
             merge_and_tag co audio_segments chunk_ids output_file ext tags w1))"

subsection \<open>Preparing a chunk\<close>

definition DEFAULT_BREAK_STRING :: string where
  "DEFAULT_BREAK_STRING = '' @BRK#''"

abbreviation blank_line :: string where
  "blank_line \<equiv> [CHR 0x0A, CHR 0x0A]"

text \<open>MiniMax and Qwen: \<open>_prepare_text\<close>, the same in both.\<close>

definition minimax_prepare_text :: "string \<Rightarrow> string" where
  "minimax_prepare_text t = py_strip (py_replace DEFAULT_BREAK_STRING blank_line t)"

definition qwen_prepare_text :: "string \<Rightarrow> string" where
  "qwen_prepare_text t = py_strip (py_replace DEFAULT_BREAK_STRING blank_line t)"

text \<open>Gemini: \<open>_prepare_prompt\<close>; \<open>instructions\<close> is the configuration's field, absent
  (\<open>None\<close>) or a string, and an empty string is as good as absent.\<close>

definition gemini_prepare_prompt :: "string option \<Rightarrow> string \<Rightarrow> string" where
  "gemini_prepare_prompt instructions chunk =
     (let cleaned = py_replace DEFAULT_BREAK_STRING blank_line chunk in
      case instructions of
        None \<Rightarrow> cleaned
      | Some i \<Rightarrow> if i = [] then cleaned else py_strip i @ blank_line @ cleaned)"

subsection \<open>Synthesizing a chunk\<close>

text \<open>
  Gemini: one call of the SDK's \<open>generate_content\<close>, whose exception is logged and raised
  again, then \<open>_extract_pcm_bytes\<close> and \<open>_encode_pcm_to_segment\<close>. Of the SDK's response
  the model keeps what \<open>_extract_pcm_bytes\<close> reads: the candidates, for each its content
  (absent, or its parts), for each part its inline data (absent, text in base64, or
  bytes). Empty data counts as absent. Decoding base64 and encoding the samples belong to
  libraries and are parameters.
\<close>

datatype inline_data = Data_str string | Data_bytes string

type_synonym response = "inline_data option list option list"

record gemini_codec =
  b64decode :: "string \<Rightarrow> exn + string"
  encode_pcm_to_segment :: "string \<Rightarrow> exn + audio"

definition truthy_data :: "inline_data option \<Rightarrow> inline_data option" where
  "truthy_data p =
     (case p of
        None \<Rightarrow> None
      | Some (Data_str s) \<Rightarrow> if s = [] then None else Some (Data_str s)
      | Some (Data_bytes b) \<Rightarrow> if b = [] then None else Some (Data_bytes b))"

definition extract_pcm_bytes :: "gemini_codec \<Rightarrow> response \<Rightarrow> string \<Rightarrow> exn + string" where
  "extract_pcm_bytes gc resp chunk_id =
     (case List.map_filter truthy_data (concat (List.map_filter id resp)) of
        [] \<Rightarrow> Inl (RuntimeError (''GeminiTTS: No audio payload returned for '' @ chunk_id))
      | Data_str s # _ \<Rightarrow> b64decode gc s
      | Data_bytes b # _ \<Rightarrow> Inr b)"

definition gemini_synthesize_chunk ::
  "gemini_codec \<Rightarrow> response backend \<Rightarrow> chunk_synth" where
  "gemini_synthesize_chunk gc be prompt chunk_id w =
     (case call_backend be prompt w of
        (Inl exc, w') \<Rightarrow> (Inl exc, w')
      | (Inr resp, w') \<Rightarrow>
          (case extract_pcm_bytes gc resp chunk_id of
             Inl e \<Rightarrow> (Inl e, w')
           | Inr pcm_bytes \<Rightarrow> (encode_pcm_to_segment gc pcm_bytes, w')))"

text \<open>
  The three \<open>text_to_speech\<close>. A provider object holds its character budget, the
  language and the output format (the file extension); Gemini also the instructions.
  For MiniMax and Qwen the backend parameter stands for \<open>_synthesize\<close>, the request and
  the download of the audio together.
\<close>

record provider =
  max_chars :: nat
  language :: string
  output_format :: string

definition gemini_text_to_speech ::
  "collaborators \<Rightarrow> gemini_codec \<Rightarrow> response backend \<Rightarrow> provider \<Rightarrow> string option \<Rightarrow>
     string \<Rightarrow> string \<Rightarrow> audio_tags \<Rightarrow> world \<Rightarrow> (exn + unit) \<times> world" where
  "gemini_text_to_speech co gc be p instructions tx output_file tags w =
     text_to_speech co (gemini_prepare_prompt instructions) (gemini_synthesize_chunk gc be)
       (max_chars p) (language p) (output_format p) tx output_file tags w"

definition minimax_text_to_speech ::
  "collaborators \<Rightarrow> audio backend \<Rightarrow> provider \<Rightarrow>
     string \<Rightarrow> string \<Rightarrow> audio_tags \<Rightarrow> world \<Rightarrow> (exn + unit) \<times> world" where
  "minimax_text_to_speech co be p tx output_file tags w =
     text_to_speech co minimax_prepare_text (minimax_synthesize_with_retry be)
       (max_chars p) (language p) (output_format p) tx output_file tags w"

definition qwen_text_to_speech ::
  "collaborators \<Rightarrow> audio backend \<Rightarrow> provider \<Rightarrow>
     string \<Rightarrow> string \<Rightarrow> audio_tags \<Rightarrow> world \<Rightarrow> (exn + unit) \<times> world" where
  "qwen_text_to_speech co be p tx output_file tags w =
     text_to_speech co qwen_prepare_text (qwen_synthesize_with_retry be)
       (max_chars p) (language p) (output_format p) tx output_file tags w"

subsection \<open>Reading a run\<close>

text \<open>
  The predicates the statements about the chapter loop use. An event is of interest when it
  is the merge or the tagging; a chunk synthesizer is \<open>quiet\<close> when it adds no such
  event. \<open>chunk_raises\<close> says that chunk number \<open>j\<close> (from 0) of \<open>cs\<close> is the first
  whose synthesis raises: the chunks before it gave their segments, leaving the world
  \<open>wj\<close>, and on chunk \<open>j\<close> the synthesizer ends with the exception \<open>e\<close> in the
  world \<open>w1\<close>.
\<close>

definition merge_or_tag :: "event \<Rightarrow> bool" where
  "merge_or_tag ev = (case ev of Merge _ _ _ _ _ \<Rightarrow> True | Set_tags _ \<Rightarrow> True | _ \<Rightarrow> False)"

definition quiet :: "chunk_synth \<Rightarrow> bool" where
  "quiet synth =
     (\<forall>p c w. filter merge_or_tag (trace (snd (synth p c w))) = filter merge_or_tag (trace w))"

definition chunk_raises ::
  "(string \<Rightarrow> string) \<Rightarrow> chunk_synth \<Rightarrow> audio_tags \<Rightarrow> string list \<Rightarrow> nat \<Rightarrow> world \<Rightarrow>
     exn \<Rightarrow> world \<Rightarrow> bool" where
  "chunk_raises prep synth tags cs j w e w1 =
     (j < length cs \<and>
      (case chunks_loop prep synth tags (length cs) (take j (py_enumerate1 cs)) [] [] w of
         (Inl _, _) \<Rightarrow> False
       | (Inr _, wj) \<Rightarrow>
           synth (prep (cs ! j)) (chunk_id_of tags (j + 1) (length cs)) wj = (Inl e, w1)))"

text \<open>Collaborators and backends for the concrete runs below.\<close>

definition splitter_words :: "string \<Rightarrow> nat \<Rightarrow> string \<Rightarrow> string list" where
  "splitter_words t n l = [''One'', ''two'']"

definition splitter_whole :: "string \<Rightarrow> nat \<Rightarrow> string \<Rightarrow> string list" where
  "splitter_whole t n l = [t]"

definition merge_fine :: "audio list \<Rightarrow> string \<Rightarrow> string \<Rightarrow> string list \<Rightarrow> bool \<Rightarrow> exn option" where
  "merge_fine segs out ext ids force = None"

definition tags_fine :: "string \<Rightarrow> audio_tags \<Rightarrow> exn option" where
  "tags_fine out tags = None"

definition collaborators_words :: collaborators where
  "collaborators_words =
     \<lparr>split_text = splitter_words, merge_audio_segments = merge_fine, set_audio_tags = tags_fine\<rparr>"

definition collaborators_whole :: collaborators where
  "collaborators_whole =
     \<lparr>split_text = splitter_whole, merge_audio_segments = merge_fine, set_audio_tags = tags_fine\<rparr>"

definition backend_down :: "audio backend" where
  "backend_down n t = Inl (External (''503 at call '' @ py_str_nat n))"

definition backend_up_from :: "nat \<Rightarrow> audio backend" where
  "backend_up_from k n t = (if n < k then Inl (External ''503'') else Inr (''audio of '' @ t))"

definition backend_up_until :: "nat \<Rightarrow> audio backend" where
  "backend_up_until k n t = (if n < k then Inr (''audio of '' @ t) else Inl (External ''503''))"

definition gemini_up_from :: "nat \<Rightarrow> response backend" where
  "gemini_up_from k n t =
     (if n < k then Inl (External ''503'') else Inr [Some [Some (Data_bytes (''pcm of '' @ t))]])"

definition gemini_up_until :: "nat \<Rightarrow> response backend" where
  "gemini_up_until k n t =
     (if n < k then Inr [Some [Some (Data_bytes (''pcm of '' @ t))]] else Inl (External ''503''))"

definition codec_plain :: gemini_codec where
  "codec_plain = \<lparr>b64decode = Inr, encode_pcm_to_segment = Inr\<rparr>"

text \<open>A chunk synthesizer \<open>sends_only\<close> its argument when every backend call it adds
  to the trace carries the prepared text it was given.\<close>

definition sends_only :: "chunk_synth \<Rightarrow> bool" where
  "sends_only synth =
     (\<forall>p c w t. Backend_call t \<in> set (trace (snd (synth p c w))) \<longrightarrow>
        Backend_call t \<in> set (trace w) \<or> t = p)"

section \<open>The Markdown parser\<close>

subsection \<open>More of Python's strings\<close>

abbreviation LF :: char where "LF \<equiv> CHR 0x0A"
abbreviation CR :: char where "CR \<equiv> CHR 0x0D"

text \<open>\<open>str.lower\<close> on the code points below 256: the ASCII capitals and the Latin-1
  capitals \<open>0xC0 .. 0xDE\<close> but the multiplication sign \<open>0xD7\<close> move up by 32.\<close>

definition py_lower_char :: "char \<Rightarrow> char" where
  "py_lower_char c =
     (let n = (of_char c :: nat) in
      if (65 \<le> n \<and> n \<le> 90) \<or> (192 \<le> n \<and> n \<le> 222 \<and> n \<noteq> 215) then char_of (n + 32) else c)"

definition py_lower :: "string \<Rightarrow> string" where
  "py_lower s = map py_lower_char s"

definition py_isdigit :: "char \<Rightarrow> bool" where
  "py_isdigit c = (c \<in> set ''0123456789'')"

text \<open>\<open>sep.join(xs)\<close>.\<close>

fun py_join :: "string \<Rightarrow> string list \<Rightarrow> string" where
  "py_join sep [] = []"
| "py_join sep [x] = x"
| "py_join sep (x # y # ys) = x @ sep @ py_join sep (y # ys)"

text \<open>
  \<open>str.splitlines\<close>: a line ends at \<open>\n\<close>, \<open>\r\<close>, \<open>\r\n\<close> and at the other line
  boundaries below 256 (\<open>0x0B\<close>, \<open>0x0C\<close>, \<open>0x1C\<close>, \<open>0x1D\<close>, \<open>0x1E\<close>, \<open>0x85\<close>);
  the boundaries are dropped, and a text that ends in one has no empty last line.
\<close>

definition py_linebreak :: "char \<Rightarrow> bool" where
  "py_linebreak c = (c \<in> set [CHR 0x0A, CHR 0x0D, CHR 0x0B, CHR 0x0C, CHR 0x1C, CHR 0x1D,
     CHR 0x1E, CHR 0x85])"

fun splitlines_from :: "string \<Rightarrow> string \<Rightarrow> string list" where
  "splitlines_from cur [] = (if cur = [] then [] else [cur])"
| "splitlines_from cur (c # cs) =
     (if py_linebreak c
      then cur # (case cs of
                    [] \<Rightarrow> []
                  | d # ds \<Rightarrow> if c = CR \<and> d = LF then splitlines_from [] ds
                              else splitlines_from [] (d # ds))
      else splitlines_from (cur @ [c]) cs)"

definition py_splitlines :: "string \<Rightarrow> string list" where
  "py_splitlines s = splitlines_from [] s"

text \<open>The index of the first occurrence of \<open>needle\<close> in a text, as \<open>str.find\<close> gives
  it.\<close>

fun find_sub :: "string \<Rightarrow> string \<Rightarrow> nat option" where
  "find_sub needle [] = (if needle = [] then Some 0 else None)"
| "find_sub needle (c # cs) =
     (if prefix needle (c # cs) then Some 0 else map_option Suc (find_sub needle cs))"

text \<open>\<open>os.path.basename\<close> and \<open>os.path.splitext\<close> on POSIX paths: the base name is what
  follows the last slash; the extension starts at the last dot of the base name, unless
  only dots stand before it.\<close>

definition path_basename :: "string \<Rightarrow> string" where
  "path_basename p = rev (takeWhile (\<lambda>c. c \<noteq> CHR ''/'') (rev p))"

definition path_splitext_root :: "string \<Rightarrow> string" where
  "path_splitext_root p =
     (let base = path_basename p;
          dir = take (length p - length base) p;
          ext = rev (takeWhile (\<lambda>c. c \<noteq> CHR ''.'') (rev base));
          stem = take (length base - length ext - 1) base
      in if CHR ''.'' \<in> set base \<and> (\<exists>c \<in> set stem. c \<noteq> CHR ''.'') then dir @ stem else p)"

subsection \<open>Regular expression substitution\<close>

text \<open>
  \<open>re.sub\<close> scans the text from the left; where the pattern matches it writes the
  replacement and goes on behind the match, elsewhere it copies a character. Each pattern
  of the parser is given as a function that, from the character before the position (for
  \<open>^\<close> under \<open>MULTILINE\<close> and for the look-behind) and the text from the position on,
  tells the length of the match there and what replaces it. No pattern of the parser
  matches the empty string, so a match has a first character, and \<open>skip\<close> counts the
  characters of the match that are still to be passed over.
\<close>

type_synonym matcher = "char option \<Rightarrow> string \<Rightarrow> (nat \<times> string) option"

fun re_sub_scan :: "matcher \<Rightarrow> char option \<Rightarrow> nat \<Rightarrow> string \<Rightarrow> string" where
  "re_sub_scan m prev skip [] = []"
| "re_sub_scan m prev (Suc k) (c # cs) = re_sub_scan m (Some c) k cs"
| "re_sub_scan m prev 0 (c # cs) =
     (case m prev (c # cs) of
        Some (n, rep) \<Rightarrow> rep @ re_sub_scan m (Some c) (n - 1) cs
      | None \<Rightarrow> c # re_sub_scan m (Some c) 0 cs)"

definition re_sub :: "matcher \<Rightarrow> string \<Rightarrow> string" where
  "re_sub m s = re_sub_scan m None 0 s"

definition at_line_start :: "char option \<Rightarrow> bool" where
  "at_line_start prev = (prev = None \<or> prev = Some LF)"

text \<open>The patterns of \<open>_strip_markdown\<close>, in its order. Fenced code, three
  backquotes, \<open>.*?\<close> under \<open>DOTALL\<close> and three backquotes, replaced by nothing: from
  a fence up to the nearest closing fence.\<close>

abbreviation fence :: string where
  "fence \<equiv> [CHR 0x60, CHR 0x60, CHR 0x60]"

definition m_code_block :: matcher where
  "m_code_block prev s =
     (if prefix fence s
      then (case find_sub fence (drop 3 s) of
              Some k \<Rightarrow> Some (3 + k + 3, [])
            | None \<Rightarrow> None)
      else None)"

text \<open>Inline code, from a backquote to the next one (a backquote, any characters but
  backquotes, a backquote), replaced by its inside.\<close>

definition m_inline_code :: matcher where
  "m_inline_code prev s =
     (if prefix [CHR 0x60] s
      then (let inner = takeWhile (\<lambda>c. c \<noteq> CHR 0x60) (drop 1 s) in
            if prefix [CHR 0x60] (drop (1 + length inner) s) then Some (length inner + 2, inner)
            else None)
      else None)"

text \<open>The end of an image or a link, \<open>\]\([^\)]*\)\<close>: its length.\<close>

definition link_tail :: "string \<Rightarrow> nat option" where
  "link_tail s =
     (if prefix '']('' s
      then (let url = takeWhile (\<lambda>c. c \<noteq> CHR '')'') (drop 2 s) in
            if prefix '')'' (drop (2 + length url) s) then Some (2 + length url + 1) else None)
      else None)"

text \<open>Images, \<open>!\[([^\]]*)\]\([^\)]*\)\<close>, replaced by the alternative text.\<close>

definition m_image :: matcher where
  "m_image prev s =
     (if prefix ''!['' s
      then (let alt = takeWhile (\<lambda>c. c \<noteq> CHR '']'') (drop 2 s) in
            case link_tail (drop (2 + length alt) s) of
              Some t \<Rightarrow> Some (2 + length alt + t, alt)
            | None \<Rightarrow> None)
      else None)"

text \<open>Links, \<open>\[([^\]]+)\]\([^\)]*\)\<close>, replaced by the link text, which is not empty.\<close>

definition m_link :: matcher where
  "m_link prev s =
     (if prefix ''['' s
      then (let alt = takeWhile (\<lambda>c. c \<noteq> CHR '']'') (drop 1 s) in
            if alt = [] then None
            else (case link_tail (drop (1 + length alt) s) of
                    Some t \<Rightarrow> Some (1 + length alt + t, alt)
                  | None \<Rightarrow> None))
      else None)"

text \<open>Emphasis, \<open>(d)(.*?)\1\<close> for a delimiter \<open>d\<close>, replaced by what stands between:
  from a delimiter to its nearest repetition, with no line break between (the dot does
  not match one).\<close>

definition m_delimited :: "string \<Rightarrow> matcher" where
  "m_delimited d prev s =
     (if prefix d s
      then (case find_sub d (drop (length d) s) of
              Some k \<Rightarrow>
                if LF \<in> set (take k (drop (length d) s)) then None
                else Some (length d + k + length d, take k (drop (length d) s))
            | None \<Rightarrow> None)
      else None)"

text \<open>Bold, \<open>(\*\*|__)(.*?)\1\<close>, and italic, \<open>(\*|_)(.*?)\1\<close>.\<close>

definition m_bold :: matcher where
  "m_bold prev s =
     (if prefix ''**'' s then m_delimited ''**'' prev s else m_delimited ''__'' prev s)"

definition m_italic :: matcher where
  "m_italic prev s =
     (if prefix ''*'' s then m_delimited ''*'' prev s else m_delimited ''_'' prev s)"

text \<open>Block quotes, \<open>^>+\s?\<close> at the start of a line.\<close>

definition m_blockquote :: matcher where
  "m_blockquote prev s =
     (if at_line_start prev \<and> prefix ''>'' s
      then (let run = takeWhile (\<lambda>c. c = CHR ''>'') s; rest = drop (length run) s in
            Some (length run + (if rest \<noteq> [] \<and> py_isspace (hd rest) then 1 else 0), []))
      else None)"

text \<open>Bullets, \<open>^\s{0,3}[-*+]\s+\<close> at the start of a line: at most three white
  characters before the bullet, at least one behind it.\<close>

definition m_bullet :: matcher where
  "m_bullet prev s =
     (if at_line_start prev
      then (let w = takeWhile py_isspace s; rest = drop (length w) s in
            if length w \<le> 3 \<and> rest \<noteq> [] \<and> hd rest \<in> set ''-*+''
            then (let w2 = takeWhile py_isspace (tl rest) in
                  if w2 = [] then None else Some (length w + 1 + length w2, []))
            else None)
      else None)"

text \<open>Numbered items, \<open>^\s*\d+\.\s+\<close> at the start of a line.\<close>

definition m_numbered :: matcher where
  "m_numbered prev s =
     (if at_line_start prev
      then (let w = takeWhile py_isspace s; rest = drop (length w) s;
                d = takeWhile py_isdigit rest; rest2 = drop (length d) rest in
            if d \<noteq> [] \<and> prefix ''.'' rest2
            then (let w2 = takeWhile py_isspace (tl rest2) in
                  if w2 = [] then None else Some (length w + length d + 1 + length w2, []))
            else None)
      else None)"

text \<open>Heading markers, \<open>^\s*(#{1,6})\s*\<close> at the start of a line: of more than six
  hashes the first six go, and no white space behind them.\<close>

definition m_heading :: matcher where
  "m_heading prev s =
     (if at_line_start prev
      then (let w = takeWhile py_isspace s; rest = drop (length w) s;
                h = takeWhile (\<lambda>c. c = CHR ''#'') rest in
            if h = [] then None
            else if length h \<le> 6
            then Some (length w + length h + length (takeWhile py_isspace (drop (length h) rest)), [])
            else Some (length w + 6, []))
      else None)"

definition strip_markdown :: "string \<Rightarrow> string" where
  "strip_markdown t =
     re_sub m_heading (re_sub m_numbered (re_sub m_bullet (re_sub m_blockquote
       (re_sub m_italic (re_sub m_bold (re_sub m_link (re_sub m_image
         (re_sub m_inline_code (re_sub m_code_block t)))))))))"

text \<open>The patterns of \<open>_apply_newline_mode\<close> and of the end of \<open>_build_chapter_text\<close>:
  a run of at least \<open>k\<close> line feeds (\<open>\n+\<close> and \<open>\n{2,}\<close>), one line feed, a run of white
  space (\<open>\s+\<close>).\<close>

definition m_newlines :: "nat \<Rightarrow> string \<Rightarrow> matcher" where
  "m_newlines k rep prev s =
     (let run = takeWhile (\<lambda>c. c = LF) s in
      if run \<noteq> [] \<and> k \<le> length run then Some (length run, rep) else None)"

definition m_newline :: matcher where
  "m_newline prev s = (if prefix [LF] s then Some (1, '' '') else None)"

definition m_whitespace :: matcher where
  "m_whitespace prev s =
     (let run = takeWhile py_isspace s in if run = [] then None else Some (length run, '' ''))"

text \<open>Endnote numbers: a run of digits behind (a look-behind) an ASCII letter, one of
  \<open>.,!?;)\<close> or a double quote (the class also holds the right double quotation mark,
  a code point beyond 255). Reference numbers, \<open>\[\d+(\.\d+)?\]\<close>.\<close>

definition endnote_lead :: "char \<Rightarrow> bool" where
  "endnote_lead c =
     (let n = (of_char c :: nat) in
      (65 \<le> n \<and> n \<le> 90) \<or> (97 \<le> n \<and> n \<le> 122) \<or> c \<in> set ''.,!?;)'' \<or> c = CHR 0x22)"

definition m_endnote :: matcher where
  "m_endnote prev s =
     (case prev of
        None \<Rightarrow> None
      | Some b \<Rightarrow>
          (let d = takeWhile py_isdigit s in
           if endnote_lead b \<and> d \<noteq> [] then Some (length d, []) else None))"

definition m_reference :: matcher where
  "m_reference prev s =
     (if prefix ''['' s
      then (let d = takeWhile py_isdigit (drop 1 s); rest = drop (1 + length d) s in
            if d = [] then None
            else if prefix '']'' rest then Some (1 + length d + 1, [])
            else if prefix ''.'' rest
            then (let d2 = takeWhile py_isdigit (drop 1 rest) in
                  if d2 \<noteq> [] \<and> prefix '']'' (drop (1 + length d2) rest)
                  then Some (1 + length d + 1 + length d2 + 1, [])
                  else None)
            else None)
      else None)"
subsection \<open>Front matter and metadata\<close>

text \<open>
  \<open>FRONT_MATTER_DELIMITER\<close>, \<open>^---\s*$\<close>, on a line: three dashes and then white space
  only. \<open>METADATA_PATTERN\<close>, \<open>^(?P<key>[A-Za-z0-9_\- ]+):\s*(?P<value>.+)$\<close>, on a line
  of \<open>splitlines\<close>, which holds no line break: a key of letters, digits, underscores,
  dashes and spaces, a colon, and at least one more character. The result is what
  \<open>_extract_front_matter\<close> makes of the two groups: the key stripped and in lower case,
  the value stripped (which is what follows the colon, stripped, whichever white space
  the pattern gives to \<open>\s*\<close>).
\<close>

definition front_matter_delimiter :: "string \<Rightarrow> bool" where
  "front_matter_delimiter line = (prefix ''---'' line \<and> list_all py_isspace (drop 3 line))"

definition key_char :: "char \<Rightarrow> bool" where
  "key_char c =
     (let n = (of_char c :: nat) in
      (65 \<le> n \<and> n \<le> 90) \<or> (97 \<le> n \<and> n \<le> 122) \<or> (48 \<le> n \<and> n \<le> 57) \<or> c \<in> set ''_- '')"

definition metadata_match :: "string \<Rightarrow> (string \<times> string) option" where
  "metadata_match line =
     (let k = takeWhile key_char line; rest = drop (length k) line in
      if k \<noteq> [] \<and> prefix '':'' rest \<and> tl rest \<noteq> []
      then Some (py_lower (py_strip k), py_strip (tl rest))
      else None)"

text \<open>
  The loop of \<open>_extract_front_matter\<close> over the lines behind the first, with the index
  of the line at hand: it ends at the closing delimiter with \<open>body_start\<close> behind it, or
  at the end of the lines with \<open>body_start\<close> still 0. A key met again is overwritten.
\<close>

fun front_matter_loop ::
  "(string \<rightharpoonup> string) \<Rightarrow> nat \<Rightarrow> string list \<Rightarrow> (string \<rightharpoonup> string) \<times> nat" where
  "front_matter_loop md i [] = (md, 0)"
| "front_matter_loop md i (line # rest) =
     (if front_matter_delimiter line then (md, i + 1)
      else (case metadata_match line of
              Some (k, v) \<Rightarrow> front_matter_loop (md(k \<mapsto> v)) (i + 1) rest
            | None \<Rightarrow> front_matter_loop md (i + 1) rest))"

definition extract_front_matter :: "string \<Rightarrow> (string \<rightharpoonup> string) \<times> string list" where
  "extract_front_matter t =
     (let lines = py_splitlines t in
      case lines of
        [] \<Rightarrow> (Map.empty, [])
      | first # rest \<Rightarrow>
          if front_matter_delimiter first
          then (let (md, body_start) = front_matter_loop Map.empty 1 rest in
                (md, drop body_start lines))
          else (Map.empty, lines))"

subsection \<open>The parser object\<close>

text \<open>
  The parser keeps the configuration it reads (the path of the input file, the newline
  mode and the two stripping flags), the metadata and the body lines. What is not part of
  the sources at hand is a parameter: \<open>sanitize_title\<close> of the base class, the pairs that
  \<open>get_search_and_replaces\<close> reads from the rule file, and \<open>re.sub\<close> on a pattern and
  a replacement of the user's, which may raise.
\<close>

record markdown_parser =
  input_file :: string
  newline_mode :: string
  remove_endnotes :: bool
  remove_reference_numbers :: bool
  metadata :: "string \<rightharpoonup> string"
  body_lines :: "string list"

record parser_env =
  sanitize_title :: "string \<Rightarrow> string \<Rightarrow> string"
  search_and_replaces :: "(string \<times> string) list"
  user_re_sub :: "string \<Rightarrow> string \<Rightarrow> string \<Rightarrow> exn + string"

definition MarkdownBookParser :: "string \<Rightarrow> string \<Rightarrow> bool \<Rightarrow> bool \<Rightarrow> string \<Rightarrow> markdown_parser" where
  "MarkdownBookParser file mode endnotes refs raw_text =
     (let (md, body) = extract_front_matter raw_text in
      \<lparr>input_file = file, newline_mode = mode, remove_endnotes = endnotes,
       remove_reference_numbers = refs, metadata = md, body_lines = body\<rparr>)"

text \<open>
  \<open>HEADING_PATTERN\<close>, \<open>^\s*(#{1,6})\s+(.*)$\<close>, matched on a line: white space, one to
  six hashes, white space, and the rest, which holds no line feed but possibly a last one.
  The result is the number of hashes and the rest.
\<close>

definition heading_match :: "string \<Rightarrow> (nat \<times> string) option" where
  "heading_match line =
     (let s1 = dropWhile py_isspace line;
          h = takeWhile (\<lambda>c. c = CHR ''#'') s1;
          s2 = drop (length h) s1
      in if 1 \<le> length h \<and> length h \<le> 6 \<and> s2 \<noteq> [] \<and> py_isspace (hd s2)
         then (let r = dropWhile py_isspace s2 in
               if LF \<in> set (butlast r) then None
               else Some (length h, if r \<noteq> [] \<and> last r = LF then butlast r else r))
         else None)"

fun first_level1_heading :: "string list \<Rightarrow> string option" where
  "first_level1_heading [] = None"
| "first_level1_heading (line # rest) =
     (case heading_match line of
        Some (level, heading) \<Rightarrow>
          if level = 1 then Some (py_strip heading) else first_level1_heading rest
      | None \<Rightarrow> first_level1_heading rest)"

definition get_book_title :: "markdown_parser \<Rightarrow> string" where
  "get_book_title p =
     (case metadata p ''title'' of
        Some t \<Rightarrow> t
      | None \<Rightarrow>
          (case first_level1_heading (body_lines p) of
             Some h \<Rightarrow> h
           | None \<Rightarrow> path_splitext_root (path_basename (input_file p))))"

definition get_book_author :: "markdown_parser \<Rightarrow> string" where
  "get_book_author p =
     (case metadata p ''author'' of
        Some a \<Rightarrow> a
      | None \<Rightarrow>
          (case metadata p ''authors'' of
             Some a \<Rightarrow> a
           | None \<Rightarrow> (case metadata p ''creator'' of Some a \<Rightarrow> a | None \<Rightarrow> ''Unknown'')))"

subsection \<open>The text of a chapter\<close>

text \<open>
  \<open>_apply_newline_mode\<close>. The replacement of the two substitutions is the break string,
  stripped, between two spaces; \<open>re.sub\<close> writes a replacement as it is when it holds no
  backslash, and so does the model (the break string of every provider at hand,
  \<open>" @BRK#"\<close>, holds none).
\<close>

definition apply_newline_mode :: "string \<Rightarrow> string \<Rightarrow> string \<Rightarrow> exn + string" where
  "apply_newline_mode mode t break_string =
     (let t1 = py_replace [CR, LF] [LF] t;
          rep = '' '' @ py_strip break_string @ '' ''
      in if mode = ''single'' then Inr (re_sub (m_newlines 1 rep) t1)
         else if mode = ''double'' then Inr (re_sub m_newline (re_sub (m_newlines 2 rep) t1))
         else if mode = ''none'' then Inr (re_sub m_newline t1)
         else Inl (ValueError (''Invalid newline mode: '' @ mode)))"

fun apply_search_and_replaces ::
  "parser_env \<Rightarrow> (string \<times> string) list \<Rightarrow> string \<Rightarrow> exn + string" where
  "apply_search_and_replaces env [] t = Inr t"
| "apply_search_and_replaces env ((search, replace) # rest) t =
     (case user_re_sub env search replace t of
        Inl e \<Rightarrow> Inl e
      | Inr t' \<Rightarrow> apply_search_and_replaces env rest t')"

text \<open>\<open>_build_chapter_text\<close>; the heading is absent (\<open>None\<close>) or a string, and an empty
  string counts as absent.\<close>

definition build_chapter_text ::
  "markdown_parser \<Rightarrow> parser_env \<Rightarrow> string list \<Rightarrow> string \<Rightarrow> string option \<Rightarrow> exn + string" where
  "build_chapter_text p env lines break_string heading =
     (let heading_text = (case heading of None \<Rightarrow> [] | Some h \<Rightarrow> py_strip h);
          body_text = py_strip (py_join [LF] lines);
          parts = (if heading_text \<noteq> [] then [heading_text] else []) @
                  (if body_text \<noteq> [] then [body_text] else []);
          t0 = py_strip (py_join [LF, LF] parts)
      in if t0 = [] then Inr []
         else
           (case apply_newline_mode (newline_mode p) (strip_markdown t0) break_string of
              Inl e \<Rightarrow> Inl e
            | Inr t1 \<Rightarrow>
                (let t2 = (if remove_endnotes p then re_sub m_endnote t1 else t1);
                     t3 = (if remove_reference_numbers p then re_sub m_reference t2 else t2)
                 in case apply_search_and_replaces env (search_and_replaces env) t3 of
                      Inl e \<Rightarrow> Inl e
                    | Inr t4 \<Rightarrow> Inr (py_strip (re_sub m_whitespace t4)))))"

subsection \<open>Chapters\<close>

text \<open>
  The state of the loop of \<open>get_chapters\<close>. \<open>title_source\<close> is the title both places that
  close a chapter give it: the heading, or \<open>Chapter n\<close> for the value \<open>n\<close> of the counter
  when there is no heading or an empty one.
\<close>

record scan_state =
  chapters :: "(string \<times> string) list"
  current_title :: "string option"
  current_lines :: "string list"
  fallback_index :: nat

definition title_source :: "string option \<Rightarrow> nat \<Rightarrow> string" where
  "title_source current n =
     (case current of
        None \<Rightarrow> ''Chapter '' @ py_str_nat n
      | Some t \<Rightarrow> if t = [] then ''Chapter '' @ py_str_nat n else t)"

text \<open>Closing a chapter inside the loop, at a heading of level 1 or 2: the chapter is
  appended when its text is not empty, and then the counter goes up.\<close>

definition close_chapter ::
  "markdown_parser \<Rightarrow> parser_env \<Rightarrow> string \<Rightarrow> scan_state \<Rightarrow> exn + scan_state" where
  "close_chapter p env break_string st =
     (if current_title st \<noteq> None \<or> current_lines st \<noteq> []
      then (case build_chapter_text p env (current_lines st) break_string (current_title st) of
              Inl e \<Rightarrow> Inl e
            | Inr chapter_text \<Rightarrow>
                if chapter_text \<noteq> []
                then Inr (st\<lparr>chapters := chapters st @
                              [(sanitize_title env
                                  (title_source (current_title st) (fallback_index st)) break_string,
                                chapter_text)],
                            fallback_index := fallback_index st + 1\<rparr>)
                else Inr st)
      else Inr st)"

fun scan_lines ::
  "markdown_parser \<Rightarrow> parser_env \<Rightarrow> string \<Rightarrow> string list \<Rightarrow> scan_state \<Rightarrow> exn + scan_state" where
  "scan_lines p env break_string [] st = Inr st"
| "scan_lines p env break_string (line # rest) st =
     (case heading_match line of
        None \<Rightarrow>
          scan_lines p env break_string rest (st\<lparr>current_lines := current_lines st @ [line]\<rparr>)
      | Some (level, heading) \<Rightarrow>
          if level \<le> 2
          then (case close_chapter p env break_string st of
                  Inl e \<Rightarrow> Inl e
                | Inr st' \<Rightarrow>
                    scan_lines p env break_string rest
                      (st'\<lparr>current_title := Some (py_strip heading), current_lines := []\<rparr>))
          else scan_lines p env break_string rest
                 (st\<lparr>current_lines := current_lines st @ [line]\<rparr>))"

text \<open>Closing the last chapter behind the loop: the same, but the counter stays.\<close>

definition close_last ::
  "markdown_parser \<Rightarrow> parser_env \<Rightarrow> string \<Rightarrow> scan_state \<Rightarrow> exn + (string \<times> string) list" where
  "close_last p env break_string st =
     (if current_title st \<noteq> None \<or> current_lines st \<noteq> []
      then (case build_chapter_text p env (current_lines st) break_string (current_title st) of
              Inl e \<Rightarrow> Inl e
            | Inr chapter_text \<Rightarrow>
                if chapter_text \<noteq> []
                then Inr (chapters st @
                       [(sanitize_title env
                           (title_source (current_title st) (fallback_index st)) break_string,
                         chapter_text)])
                else Inr (chapters st))
      else Inr (chapters st))"

text \<open>When there is no chapter so far and the body has lines: one chapter of the whole
  body under the title of the book.\<close>

definition whole_book ::
  "markdown_parser \<Rightarrow> parser_env \<Rightarrow> string \<Rightarrow> (string \<times> string) list \<Rightarrow>
     exn + (string \<times> string) list" where
  "whole_book p env break_string chs =
     (if chs = [] \<and> body_lines p \<noteq> []
      then (case build_chapter_text p env (body_lines p) break_string (Some (get_book_title p)) of
              Inl e \<Rightarrow> Inl e
            | Inr t \<Rightarrow>
                if t \<noteq> []
                then Inr (chs @
                       [(sanitize_title env
                           (if get_book_title p \<noteq> [] then get_book_title p else ''Chapter 1'')
                           break_string, t)])
                else Inr chs)
      else Inr chs)"

definition scan_start :: scan_state where
  "scan_start = \<lparr>chapters = [], current_title = None, current_lines = [], fallback_index = 1\<rparr>"

definition get_chapters ::
  "markdown_parser \<Rightarrow> parser_env \<Rightarrow> string \<Rightarrow> exn + (string \<times> string) list" where
  "get_chapters p env break_string =
     (case scan_lines p env break_string (body_lines p) scan_start of
        Inl e \<Rightarrow> Inl e
      | Inr st \<Rightarrow>
          (case close_last p env break_string st of
             Inl e \<Rightarrow> Inl e
           | Inr chs \<Rightarrow> whole_book p env break_string chs))"

text \<open>Stand-ins for the concrete runs: a \<open>sanitize_title\<close> that keeps the title, and no
  rules of the user.\<close>

definition keep_title :: "string \<Rightarrow> string \<Rightarrow> string" where
  "keep_title t break_string = t"

definition no_user_re_sub :: "string \<Rightarrow> string \<Rightarrow> string \<Rightarrow> exn + string" where
  "no_user_re_sub search replace t = Inr t"

definition plain_env :: parser_env where
  "plain_env = \<lparr>sanitize_title = keep_title, search_and_replaces = [], user_re_sub = no_user_re_sub\<rparr>"

subsection \<open>Reading the parser's results\<close>

text \<open>
  The metadata a block of front matter lines stands for when a later line with a key
  overrides an earlier one: the value of the last line that gives the key.
\<close>

definition gives_key :: "string \<Rightarrow> string \<Rightarrow> bool" where
  "gives_key k line = (case metadata_match line of Some (k', v) \<Rightarrow> k' = k | None \<Rightarrow> False)"

definition last_wins :: "string list \<Rightarrow> string \<rightharpoonup> string" where
  "last_wins ls k =
     (case filter (gives_key k) ls of
        [] \<Rightarrow> None
      | m # ms \<Rightarrow> map_option snd (metadata_match (last (m # ms))))"

text \<open>The document of the specification's example, and two front matters that give the
  title twice: under the same key, and under a key written in another way.\<close>

definition example_document :: string where
  "example_document =
     ''---'' @ [LF] @ ''title: T'' @ [LF] @ ''---'' @ [LF] @ ''# Prologue'' @ [LF] @
     ''Hello.'' @ [LF, LF] @ ''## One'' @ [LF] @ ''World **bold**.''"

definition repeated_title_document :: string where
  "repeated_title_document =
     ''---'' @ [LF] @ ''title: A'' @ [LF] @ ''title: B'' @ [LF] @ ''---'' @ [LF] @ ''body''"

definition two_titles_document :: string where
  "two_titles_document =
     ''---'' @ [LF] @ ''title: A'' @ [LF] @ ''Title : B'' @ [LF] @ ''---'' @ [LF] @ ''body''"

text \<open>
  What the newline modes are said to do, in words of runs: every maximal run of line feeds
  in a text, \<open>n\<close> of them, is replaced by \<open>f n\<close>, and the other characters stay.
\<close>

function replace_line_break_runs :: "(nat \<Rightarrow> string) \<Rightarrow> string \<Rightarrow> string" where
  "replace_line_break_runs f [] = []"
| "replace_line_break_runs f (c # cs) =
     (if c = LF
      then f (Suc (length (takeWhile (\<lambda>x. x = LF) cs))) @
           replace_line_break_runs f (dropWhile (\<lambda>x. x = LF) cs)
      else c # replace_line_break_runs f cs)"
  by pat_completeness auto
termination
  by (relation "measure (\<lambda>(f, s). length s)") (auto simp: less_Suc_eq_le length_dropWhile_le)

definition ignores_prev :: "matcher \<Rightarrow> bool" where
  "ignores_prev m = (\<forall>p q s. m p s = m q s)"

text \<open>A line opens a chapter when it is a heading of level 1 or 2.\<close>

definition chapter_heading :: "string \<Rightarrow> bool" where
  "chapter_heading line =
     (case heading_match line of Some (level, heading) \<Rightarrow> level \<le> 2 | None \<Rightarrow> False)"

text \<open>Documents for the concrete runs: a second heading without text, a body without
  headings, and a front matter with a blank title over a body of fenced code.\<close>

definition empty_heading_document :: string where
  "empty_heading_document = ''# A'' @ [LF] @ ''x'' @ [LF] @ ''# '' @ [LF] @ ''y''"

definition code_only_document :: string where
  "code_only_document =
     ''---'' @ [LF] @ ''title:  '' @ [LF] @ ''---'' @ [LF] @
     fence @ [LF] @ ''x = 1'' @ [LF] @ fence"

definition parser_x :: markdown_parser where
  "parser_x = MarkdownBookParser ''x.md'' ''double'' False False []"

definition fenced_document :: string where
  "fenced_document = fence @ [LF] @ ''x = 1'' @ [LF] @ fence"

text \<open>A front matter with a title over a heading without text and fenced code.\<close>

definition titled_code_document :: string where
  "titled_code_document =
     ''---'' @ [LF] @ ''title: T'' @ [LF] @ ''---'' @ [LF] @
     ''# '' @ [LF] @ fence @ [LF] @ ''x = 1'' @ [LF] @ fence"

section \<open>Configuration of the providers\<close>





subsection \<open>Gemini\<close>









subsection \<open>MiniMax\<close>




text \<open>\<open>_resolve_speed\<close>, \<open>_resolve_volume\<close>, \<open>_resolve_pitch\<close>: the default for a value
  that was not given, and \<open>max(lo, min(hi, x))\<close> for a number.\<close>

definition minimax_resolve_speed :: "real option \<Rightarrow> real" where
  "minimax_resolve_speed raw = (case raw of None \<Rightarrow> 1 | Some x \<Rightarrow> max (1 / 2) (min 2 x))"

definition minimax_resolve_volume :: "real option \<Rightarrow> real" where
  "minimax_resolve_volume raw = (case raw of None \<Rightarrow> 1 | Some x \<Rightarrow> max (1 / 10) (min 2 x))"

definition minimax_resolve_pitch :: "real option \<Rightarrow> real" where
  "minimax_resolve_pitch raw = (case raw of None \<Rightarrow> 0 | Some x \<Rightarrow> max (- 12) (min 12 x))"

text \<open>\<open>_resolve_timeout\<close>: the \<open>ValueError\<close> it raises on a timeout that is not positive
  is caught in the function itself, which then returns the default.\<close>

definition minimax_resolve_timeout :: "int option \<Rightarrow> int" where
  "minimax_resolve_timeout raw =
     (let timeout = (case raw of None \<Rightarrow> 60 | Some i \<Rightarrow> i) in if timeout \<le> 0 then 60 else timeout)"






subsection \<open>Qwen\<close>





definition qwen_resolve_timeout :: "int option \<Rightarrow> int" where
  "qwen_resolve_timeout raw = (case raw of None \<Rightarrow> 30 | Some i \<Rightarrow> if i \<le> 0 then 30 else i)"








section \<open>Properties of the providers\<close>

subsection \<open>The retry loop\<close>

lemma attempts_list: "[1 ..< MAX_RETRIES + 1] = [1, 2, 3, 4]"
  by (simp add: MAX_RETRIES_def upt_rec)

lemma retry_all_fail:
  assumes "\<forall>i<4. be (calls w + i) t = Inl (e i)"
  shows "retry_loop name be t cid [1 ..< MAX_RETRIES + 1] None w =
     (Inl (e 3), w\<lparr>calls := calls w + 4,
        trace := trace w @ [Backend_call t, Sleep 2, Backend_call t, Sleep 4,
                            Backend_call t, Sleep 6, Backend_call t]\<rparr>)"
proof -
  have a: "be (calls w) t = Inl (e 0)" "be (Suc (calls w)) t = Inl (e 1)"
    "be (Suc (Suc (calls w))) t = Inl (e 2)" "be (Suc (Suc (Suc (calls w)))) t = Inl (e 3)"
    using assms[rule_format, of 0] assms[rule_format, of 1] assms[rule_format, of 2]
      assms[rule_format, of 3]
    by (simp_all add: numeral_2_eq_2 numeral_3_eq_3)
  show ?thesis
    unfolding attempts_list
    by (simp add: call_backend_def sleep_def a MAX_RETRIES_def RETRY_BACKOFF_SECONDS_def)
qed

lemma retry_k_fail:
  assumes "k < 4" "\<forall>i<k. be (calls w + i) t = Inl (e i)" "be (calls w + k) t = Inr buf"
  shows "retry_loop name be t cid [1 ..< MAX_RETRIES + 1] None w =
     (Inr buf, w\<lparr>calls := calls w + k + 1,
        trace := trace w @
          concat (map (\<lambda>i. [Backend_call t, Sleep (RETRY_BACKOFF_SECONDS * (i + 1))]) [0 ..< k])
          @ [Backend_call t]\<rparr>)"
proof -
  consider "k = 0" | "k = 1" | "k = 2" | "k = 3" using assms(1) by linarith
  then show ?thesis
  proof cases
    case 1
    then show ?thesis using assms unfolding attempts_list
      by (simp add: call_backend_def sleep_def MAX_RETRIES_def RETRY_BACKOFF_SECONDS_def)
  next
    case 2
    then show ?thesis using assms unfolding attempts_list
      by (simp add: call_backend_def sleep_def MAX_RETRIES_def RETRY_BACKOFF_SECONDS_def)
  next
    case 3
    have a: "be (calls w) t = Inl (e 0)" "be (Suc (calls w)) t = Inl (e 1)"
      using assms(2)[rule_format, of 0] assms(2)[rule_format, of 1] 3 by simp_all
    have b: "be (Suc (Suc (calls w))) t = Inr buf" using assms(3) 3 by simp
    show ?thesis using 3 a b unfolding attempts_list
      by (simp add: call_backend_def sleep_def MAX_RETRIES_def RETRY_BACKOFF_SECONDS_def upt_rec)
  next
    case 4
    have a: "be (calls w) t = Inl (e 0)" "be (Suc (calls w)) t = Inl (e 1)"
      "be (Suc (Suc (calls w))) t = Inl (e 2)"
      using assms(2)[rule_format, of 0] assms(2)[rule_format, of 1] assms(2)[rule_format, of 2] 4
      by (simp_all add: numeral_2_eq_2)
    have b: "be (Suc (Suc (Suc (calls w)))) t = Inr buf"
      using assms(3) 4 by (simp add: numeral_3_eq_3)
    show ?thesis using 4 a b unfolding attempts_list
      by (simp add: call_backend_def sleep_def MAX_RETRIES_def RETRY_BACKOFF_SECONDS_def upt_rec)
  qed
qed

text \<open>
  Claim C2. For MiniMax and Qwen, when every attempt of \<open>_synthesize_with_retry\<close> on a
  chunk raises, exactly \<open>MAX_RETRIES\<close> = 4 backend calls are made, with a sleep of
  \<open>RETRY_BACKOFF_SECONDS * attempt\<close> seconds after the attempts 1, 2 and 3 and none after
  the fourth, and the exception of the fourth attempt is raised. When the backend raises on
  exactly \<open>k < 4\<close> attempts and then answers, the answer's buffer is returned as it is,
  after \<open>k + 1\<close> calls and the \<open>k\<close> sleeps between them.
\<close>

theorem synthesize_with_retry_protocol:
  "((\<forall>i<MAX_RETRIES. be (calls w + i) t = Inl (e i)) \<longrightarrow>
      minimax_synthesize_with_retry be t cid w =
        (Inl (e (MAX_RETRIES - 1)),
         w\<lparr>calls := calls w + MAX_RETRIES,
            trace := trace w @
              [Backend_call t, Sleep (RETRY_BACKOFF_SECONDS * 1),
               Backend_call t, Sleep (RETRY_BACKOFF_SECONDS * 2),
               Backend_call t, Sleep (RETRY_BACKOFF_SECONDS * 3),
               Backend_call t]\<rparr>) \<and>
      qwen_synthesize_with_retry be t cid w = minimax_synthesize_with_retry be t cid w) \<and>
   (k < MAX_RETRIES \<and> (\<forall>i<k. be (calls w + i) t = Inl (e i)) \<and> be (calls w + k) t = Inr buf \<longrightarrow>
      minimax_synthesize_with_retry be t cid w =
        (Inr buf,
         w\<lparr>calls := calls w + k + 1,
            trace := trace w @
              concat (map (\<lambda>i. [Backend_call t, Sleep (RETRY_BACKOFF_SECONDS * (i + 1))]) [0 ..< k])
              @ [Backend_call t]\<rparr>) \<and>
      qwen_synthesize_with_retry be t cid w = minimax_synthesize_with_retry be t cid w)"
proof (intro conjI impI)
  assume a: "\<forall>i<MAX_RETRIES. be (calls w + i) t = Inl (e i)"
  then have a4: "\<forall>i<4. be (calls w + i) t = Inl (e i)" by (simp add: MAX_RETRIES_def)
  show "minimax_synthesize_with_retry be t cid w =
        (Inl (e (MAX_RETRIES - 1)),
         w\<lparr>calls := calls w + MAX_RETRIES,
            trace := trace w @
              [Backend_call t, Sleep (RETRY_BACKOFF_SECONDS * 1),
               Backend_call t, Sleep (RETRY_BACKOFF_SECONDS * 2),
               Backend_call t, Sleep (RETRY_BACKOFF_SECONDS * 3),
               Backend_call t]\<rparr>)"
    unfolding minimax_synthesize_with_retry_def retry_all_fail[where be=be and w=w and t=t and e=e, OF a4]
    by (simp add: MAX_RETRIES_def RETRY_BACKOFF_SECONDS_def)
  show "qwen_synthesize_with_retry be t cid w = minimax_synthesize_with_retry be t cid w"
    unfolding minimax_synthesize_with_retry_def qwen_synthesize_with_retry_def
      retry_all_fail[where be=be and w=w and t=t and e=e, OF a4] by simp
next
  assume b: "k < MAX_RETRIES \<and> (\<forall>i<k. be (calls w + i) t = Inl (e i)) \<and> be (calls w + k) t = Inr buf"
  then have k: "k < 4" and f: "\<forall>i<k. be (calls w + i) t = Inl (e i)" and s: "be (calls w + k) t = Inr buf"
    by (simp_all add: MAX_RETRIES_def)
  show "minimax_synthesize_with_retry be t cid w =
        (Inr buf,
         w\<lparr>calls := calls w + k + 1,
            trace := trace w @
              concat (map (\<lambda>i. [Backend_call t, Sleep (RETRY_BACKOFF_SECONDS * (i + 1))]) [0 ..< k])
              @ [Backend_call t]\<rparr>)"
    unfolding minimax_synthesize_with_retry_def by (rule retry_k_fail[where be=be and w=w and t=t and e=e, OF k f s])
  show "qwen_synthesize_with_retry be t cid w = minimax_synthesize_with_retry be t cid w"
    unfolding minimax_synthesize_with_retry_def qwen_synthesize_with_retry_def
      retry_k_fail[where be=be and w=w and t=t and e=e, OF k f s] by simp
qed

theorem synthesize_with_retry_protocol_witness:
  "minimax_synthesize_with_retry backend_down ''Hi'' ''c1'' world0 =
     (Inl (External ''503 at call 3''),
      \<lparr>calls = 4, trace = [Backend_call ''Hi'', Sleep 2, Backend_call ''Hi'', Sleep 4,
                           Backend_call ''Hi'', Sleep 6, Backend_call ''Hi'']\<rparr>) \<and>
   qwen_synthesize_with_retry (backend_up_from 2) ''Hi'' ''c1'' world0 =
     (Inr ''audio of Hi'',
      \<lparr>calls = 3, trace = [Backend_call ''Hi'', Sleep 2, Backend_call ''Hi'', Sleep 4,
                           Backend_call ''Hi'']\<rparr>)"
proof -
  have h1: "\<forall>i<MAX_RETRIES. backend_down (calls world0 + i) ''Hi'' = Inl (External (''503 at call '' @ py_str_nat i))"
    by (simp add: backend_down_def)
  have h2: "(2::nat) < MAX_RETRIES \<and> (\<forall>i<2. backend_up_from 2 (calls world0 + i) ''Hi'' = Inl (External ''503'')) \<and>
      backend_up_from 2 (calls world0 + 2) ''Hi'' = Inr ''audio of Hi''"
    by (simp add: backend_up_from_def MAX_RETRIES_def)
  show ?thesis
    using synthesize_with_retry_protocol[of backend_down world0 "''Hi''" "\<lambda>i. External (''503 at call '' @ py_str_nat i)" "''c1''" 0 "''''"]
      synthesize_with_retry_protocol[of "backend_up_from 2" world0 "''Hi''" "\<lambda>i. External ''503''" "''c1''" 2 "''audio of Hi''"]
      h1 h2
    by (simp add: MAX_RETRIES_def RETRY_BACKOFF_SECONDS_def upt_rec py_str_nat.simps)
qed

subsection \<open>The chapter loop\<close>

lemma retry_loop_quiet:
  "filter merge_or_tag (trace (snd (retry_loop name be t cid as le w))) =
     filter merge_or_tag (trace w)"
  by (induction as arbitrary: le w)
     (auto simp: call_backend_def sleep_def merge_or_tag_def split: option.splits sum.splits)

lemma minimax_quiet: "quiet (minimax_synthesize_with_retry be)"
  by (simp add: quiet_def minimax_synthesize_with_retry_def retry_loop_quiet)

lemma qwen_quiet: "quiet (qwen_synthesize_with_retry be)"
  by (simp add: quiet_def qwen_synthesize_with_retry_def retry_loop_quiet)

lemma gemini_quiet: "quiet (gemini_synthesize_chunk gc be)"
  by (auto simp: quiet_def gemini_synthesize_chunk_def call_backend_def merge_or_tag_def
      split: sum.splits)

lemma chunks_loop_quiet:
  assumes "quiet synth"
  shows "filter merge_or_tag (trace (snd (chunks_loop prep synth tags n xs segs ids w))) =
     filter merge_or_tag (trace w)"
proof (induction xs arbitrary: segs ids w)
  case Nil
  then show ?case by simp
next
  case (Cons x xs)
  obtain i c where x: "x = (i, c)" by (cases x)
  obtain r w' where s: "synth (prep c) (chunk_id_of tags i n) w = (r, w')"
    by (cases "synth (prep c) (chunk_id_of tags i n) w")
  have q: "filter merge_or_tag (trace w') = filter merge_or_tag (trace w)"
    using assms s unfolding quiet_def by (metis snd_conv)
  show ?case
  proof (cases r)
    case (Inl e)
    then show ?thesis using x s q by simp
  next
    case (Inr seg)
    then show ?thesis using x s q Cons.IH by simp
  qed
qed

lemma chunks_loop_append:
  "chunks_loop prep synth tags n (xs @ ys) segs ids w =
     (case chunks_loop prep synth tags n xs segs ids w of
        (Inl e, w') \<Rightarrow> (Inl e, w')
      | (Inr (s, i), w') \<Rightarrow> chunks_loop prep synth tags n ys s i w')"
  by (induction xs arbitrary: segs ids w) (auto simp: Let_def split: prod.splits sum.splits)

lemma py_enumerate1_split:
  assumes "j < length xs"
  shows "py_enumerate1 xs =
     take j (py_enumerate1 xs) @ (j + 1, xs ! j) # drop (j + 1) (py_enumerate1 xs)"
proof -
  have l: "j < length (py_enumerate1 xs)" using assms by (simp add: py_enumerate1_def)
  have "py_enumerate1 xs ! j = (j + 1, xs ! j)"
    using assms by (simp add: py_enumerate1_def del: upt_Suc)
  then show ?thesis using id_take_nth_drop[OF l] by simp
qed

lemma text_to_speech_chunk_failure:
  assumes q: "quiet synth"
    and ne: "py_strip tx \<noteq> []"
    and cr: "chunk_raises prep synth tags (split_text co tx mc lang) j w e wx"
  shows "text_to_speech co prep synth mc lang ext tx out tags w = (Inl e, wx) \<and>
         filter merge_or_tag (trace wx) = filter merge_or_tag (trace w)"
proof -
  let ?cs = "split_text co tx mc lang"
  from cr have j: "j < length ?cs" by (simp add: chunk_raises_def)
  from cr obtain acc wj where
    pre: "chunks_loop prep synth tags (length ?cs) (take j (py_enumerate1 ?cs)) [] [] w = (Inr acc, wj)"
    and fail: "synth (prep (?cs ! j)) (chunk_id_of tags (j + 1) (length ?cs)) wj = (Inl e, wx)"
    by (auto simp: chunk_raises_def split: prod.splits sum.splits)
  have loop: "chunks_loop prep synth tags (length ?cs) (py_enumerate1 ?cs) [] [] w = (Inl e, wx)"
    apply (subst py_enumerate1_split[OF j])
    apply (subst chunks_loop_append)
    using fail apply (simp add: pre Let_def split: prod.splits)
    done
  have "filter merge_or_tag (trace wx) = filter merge_or_tag (trace w)"
    using chunks_loop_quiet[OF q, of prep tags "length ?cs" "py_enumerate1 ?cs" "[]" "[]" w] loop
    by simp
  then show ?thesis using loop ne by (simp add: text_to_speech_def)
qed

lemma text_to_speech_all_chunks:
  assumes q: "quiet synth"
    and ne: "py_strip tx \<noteq> []"
    and ok: "chunks_loop prep synth tags (length (split_text co tx mc lang))
               (py_enumerate1 (split_text co tx mc lang)) [] [] w = (Inr (segs, ids), wy)"
  shows "trace (snd (text_to_speech co prep synth mc lang ext tx out tags w)) =
           trace wy @ Merge segs out ext ids True #
             (if merge_audio_segments co segs out ext ids True = None then [Set_tags out] else []) \<and>
         filter merge_or_tag (trace wy) = filter merge_or_tag (trace w)"
proof -
  have "filter merge_or_tag (trace wy) = filter merge_or_tag (trace w)"
    using chunks_loop_quiet[OF q, of prep tags "length (split_text co tx mc lang)"
        "py_enumerate1 (split_text co tx mc lang)" "[]" "[]" w] ok
    by simp
  then show ?thesis using ok ne
    by (simp add: text_to_speech_def merge_and_tag_def Let_def split: option.splits)
qed

text \<open>
  Claim C1. For Gemini, MiniMax and Qwen alike, on a text that is not blank: when the
  synthesis of some chunk raises (the chunks before it having been synthesized),
  \<open>text_to_speech\<close> ends with that very exception, in the world the failed chunk left,
  and that world's trace holds no merge and no tagging beyond what it held before the
  call: no output file is written and nothing is tagged. When every chunk is synthesized,
  the events that follow are the merge of all segments and then, only if the merge
  returned, the tagging as the last event.
\<close>

theorem text_to_speech_chunk_error_aborts:
  assumes "py_strip tx \<noteq> []"
  shows
  "(chunk_raises (gemini_prepare_prompt instr) (gemini_synthesize_chunk gc gbe) tags
       (split_text co tx (max_chars p) (language p)) j w e wx \<longrightarrow>
      gemini_text_to_speech co gc gbe p instr tx out tags w = (Inl e, wx) \<and>
      filter merge_or_tag (trace wx) = filter merge_or_tag (trace w)) \<and>
   (chunk_raises minimax_prepare_text (minimax_synthesize_with_retry be) tags
       (split_text co tx (max_chars p) (language p)) j w e wx \<longrightarrow>
      minimax_text_to_speech co be p tx out tags w = (Inl e, wx) \<and>
      filter merge_or_tag (trace wx) = filter merge_or_tag (trace w)) \<and>
   (chunk_raises qwen_prepare_text (qwen_synthesize_with_retry be) tags
       (split_text co tx (max_chars p) (language p)) j w e wx \<longrightarrow>
      qwen_text_to_speech co be p tx out tags w = (Inl e, wx) \<and>
      filter merge_or_tag (trace wx) = filter merge_or_tag (trace w)) \<and>
   (chunks_loop (gemini_prepare_prompt instr) (gemini_synthesize_chunk gc gbe) tags
       (length (split_text co tx (max_chars p) (language p)))
       (py_enumerate1 (split_text co tx (max_chars p) (language p))) [] [] w = (Inr (segs, ids), wy) \<longrightarrow>
      trace (snd (gemini_text_to_speech co gc gbe p instr tx out tags w)) =
        trace wy @ Merge segs out (output_format p) ids True #
          (if merge_audio_segments co segs out (output_format p) ids True = None
           then [Set_tags out] else []) \<and>
      filter merge_or_tag (trace wy) = filter merge_or_tag (trace w)) \<and>
   (chunks_loop minimax_prepare_text (minimax_synthesize_with_retry be) tags
       (length (split_text co tx (max_chars p) (language p)))
       (py_enumerate1 (split_text co tx (max_chars p) (language p))) [] [] w = (Inr (segs, ids), wy) \<longrightarrow>
      trace (snd (minimax_text_to_speech co be p tx out tags w)) =
        trace wy @ Merge segs out (output_format p) ids True #
          (if merge_audio_segments co segs out (output_format p) ids True = None
           then [Set_tags out] else []) \<and>
      filter merge_or_tag (trace wy) = filter merge_or_tag (trace w)) \<and>
   (chunks_loop qwen_prepare_text (qwen_synthesize_with_retry be) tags
       (length (split_text co tx (max_chars p) (language p)))
       (py_enumerate1 (split_text co tx (max_chars p) (language p))) [] [] w = (Inr (segs, ids), wy) \<longrightarrow>
      trace (snd (qwen_text_to_speech co be p tx out tags w)) =
        trace wy @ Merge segs out (output_format p) ids True #
          (if merge_audio_segments co segs out (output_format p) ids True = None
           then [Set_tags out] else []) \<and>
      filter merge_or_tag (trace wy) = filter merge_or_tag (trace w))"
proof -
  note f = text_to_speech_chunk_failure[where tx=tx and co=co and mc="max_chars p"
      and lang="language p" and ext="output_format p" and out=out and tags=tags and w=w
      and j=j and e=e and wx=wx, OF _ assms]
  note s = text_to_speech_all_chunks[where tx=tx and co=co and mc="max_chars p"
      and lang="language p" and ext="output_format p" and out=out and tags=tags and w=w
      and segs=segs and ids=ids and wy=wy, OF _ assms]
  show ?thesis
    unfolding gemini_text_to_speech_def minimax_text_to_speech_def qwen_text_to_speech_def
    apply (intro conjI impI)
    apply (erule f[OF gemini_quiet, THEN conjunct1])
    apply (erule f[OF gemini_quiet, THEN conjunct2])
    apply (erule f[OF minimax_quiet, THEN conjunct1])
    apply (erule f[OF minimax_quiet, THEN conjunct2])
    apply (erule f[OF qwen_quiet, THEN conjunct1])
    apply (erule f[OF qwen_quiet, THEN conjunct2])
    apply (erule s[OF gemini_quiet, THEN conjunct1])
    apply (erule s[OF gemini_quiet, THEN conjunct2])
    apply (erule s[OF minimax_quiet, THEN conjunct1])
    apply (erule s[OF minimax_quiet, THEN conjunct2])
    apply (erule s[OF qwen_quiet, THEN conjunct1])
    apply (erule s[OF qwen_quiet, THEN conjunct2])
    done
qed

lemma example_text_not_blank: "py_strip ''One two'' \<noteq> []"
  by (simp add: py_strip_def py_lstrip_def py_rstrip_def py_isspace_def)

lemma example_gemini_second_chunk_raises: "chunk_raises (gemini_prepare_prompt None) (gemini_synthesize_chunk codec_plain (gemini_up_until 1))
       \<lparr>idx = 3, title = ''T''\<rparr>
       (split_text collaborators_words ''One two'' 1800 ''en-US'') 1 world0 (External ''503'')
       \<lparr>calls = 2, trace = [Backend_call ''One'', Backend_call ''two'']\<rparr>"
  by (simp add: chunk_raises_def collaborators_words_def splitter_words_def py_enumerate1_def upt_rec
      gemini_prepare_prompt_def DEFAULT_BREAK_STRING_def gemini_synthesize_chunk_def call_backend_def gemini_up_until_def
      extract_pcm_bytes_def List.map_filter_def truthy_data_def codec_plain_def)

lemma example_minimax_all_chunks: "chunks_loop minimax_prepare_text (minimax_synthesize_with_retry (backend_up_from 0)) \<lparr>idx = 3, title = ''T''\<rparr>
       (length (split_text collaborators_words ''One two'' 4500 ''en-US''))
       (py_enumerate1 (split_text collaborators_words ''One two'' 4500 ''en-US'')) [] [] world0 
   = (Inr ([''audio of One'', ''audio of two''], [''chapter-3_T_chunk_1_of_2'', ''chapter-3_T_chunk_2_of_2'']),
       \<lparr>calls = 2, trace = [Backend_call ''One'', Backend_call ''two'']\<rparr>)"
  unfolding minimax_synthesize_with_retry_def attempts_list
  by (simp add: collaborators_words_def splitter_words_def py_enumerate1_def upt_rec
      minimax_prepare_text_def DEFAULT_BREAK_STRING_def  call_backend_def backend_up_from_def
      py_strip_def py_lstrip_def py_rstrip_def py_isspace_def chunk_id_of_def py_str_int_def py_str_nat.simps)

theorem text_to_speech_chunk_error_aborts_witness:
  "gemini_text_to_speech collaborators_words codec_plain (gemini_up_until 1)
       \<lparr>max_chars = 1800, language = ''en-US'', output_format = ''wav''\<rparr> None
       ''One two'' ''out.wav'' \<lparr>idx = 3, title = ''T''\<rparr> world0 =
     (Inl (External ''503''), \<lparr>calls = 2, trace = [Backend_call ''One'', Backend_call ''two'']\<rparr>) \<and>
   trace (snd (minimax_text_to_speech collaborators_words (backend_up_from 0)
       \<lparr>max_chars = 4500, language = ''en-US'', output_format = ''mp3''\<rparr>
       ''One two'' ''out.mp3'' \<lparr>idx = 3, title = ''T''\<rparr> world0)) =
     [Backend_call ''One'', Backend_call ''two'',
      Merge [''audio of One'', ''audio of two''] ''out.mp3'' ''mp3''
        [''chapter-3_T_chunk_1_of_2'', ''chapter-3_T_chunk_2_of_2''] True,
      Set_tags ''out.mp3'']"
proof -
  have merge: "merge_audio_segments collaborators_words [''audio of One'', ''audio of two''] ''out.mp3'' ''mp3''
      [''chapter-3_T_chunk_1_of_2'', ''chapter-3_T_chunk_2_of_2''] True = None"
    by (simp add: collaborators_words_def merge_fine_def)
  show ?thesis
    using text_to_speech_chunk_error_aborts[OF example_text_not_blank, where instr=None and gc=codec_plain
        and gbe="gemini_up_until 1" and tags="\<lparr>idx = 3, title = ''T''\<rparr>"
        and co=collaborators_words
        and p="\<lparr>max_chars = 1800, language = ''en-US'', output_format = ''wav''\<rparr>"
        and j=1 and w=world0 and e="External ''503''"
        and wx="\<lparr>calls = 2, trace = [Backend_call ''One'', Backend_call ''two'']\<rparr>"
        and out="''out.wav''"]
      text_to_speech_chunk_error_aborts[OF example_text_not_blank, where be="backend_up_from 0"
        and tags="\<lparr>idx = 3, title = ''T''\<rparr>" and co=collaborators_words
        and p="\<lparr>max_chars = 4500, language = ''en-US'', output_format = ''mp3''\<rparr>"
        and w=world0 and out="''out.mp3''"
        and segs="[''audio of One'', ''audio of two'']"
        and ids="[''chapter-3_T_chunk_1_of_2'', ''chapter-3_T_chunk_2_of_2'']"
        and wy="\<lparr>calls = 2, trace = [Backend_call ''One'', Backend_call ''two'']\<rparr>"]
      example_gemini_second_chunk_raises example_minimax_all_chunks merge
    by simp
qed







subsection \<open>The break marker\<close>

lemma replace_prefix_back:
  "CHR 0x0A \<notin> set p \<Longrightarrow> prefix p (py_replace old blank_line s) \<Longrightarrow> prefix p s"
proof (induction old blank_line s arbitrary: p rule: py_replace.induct)
  case (1 old)
  then show ?case by simp
next
  case (2 old c cs)
  show ?case
  proof (cases "old \<noteq> [] \<and> prefix old (c # cs)")
    case True
    then have "prefix p (CHR 0x0A # CHR 0x0A # py_replace old blank_line (drop (length old - 1) cs))"
      using 2(4) by simp
    then have "p = []" using 2(3) by (cases p) auto
    then show ?thesis by simp
  next
    case False
    then have pr: "prefix p (c # py_replace old blank_line cs)" using 2(4) by auto
    show ?thesis
    proof (cases p)
      case Nil
      then show ?thesis by simp
    next
      case (Cons a p')
      then have "a = c" "prefix p' (py_replace old blank_line cs)" using pr by auto
      moreover have "CHR 0x0A \<notin> set p'" using 2(3) Cons by simp
      ultimately show ?thesis using 2(2)[OF False] Cons by simp
    qed
  qed
qed

lemma replace_removes_marker:
  "m \<noteq> [] \<Longrightarrow> CHR 0x0A \<notin> set m \<Longrightarrow> \<not> sublist m (py_replace m blank_line s)"
proof (induction m blank_line s rule: py_replace.induct)
  case (1 old)
  then show ?case by simp
next
  case (2 old c cs)
  show ?case
  proof (cases "old \<noteq> [] \<and> prefix old (c # cs)")
    case True
    have np: "\<And>r. \<not> prefix old (CHR 0x0A # r)" using 2(3,4)
      by (cases old) auto
    show ?thesis using True 2(1)[OF True 2(3,4)] np
      by (auto simp: sublist_Cons_right)
  next
    case False
    have "\<not> prefix old (c # py_replace old blank_line cs)"
    proof
      assume "prefix old (c # py_replace old blank_line cs)"
      then have "prefix old (py_replace old blank_line (c # cs))" using False by auto
      then have "prefix old (c # cs)" using replace_prefix_back 2(4) by blast
      then show False using False 2(3) by auto
    qed
    then show ?thesis using False 2(2)[OF False 2(3,4)]
      by (auto simp: sublist_Cons_right)
  qed
qed

lemma strip_sublist: "sublist (py_strip s) s"
proof -
  have "sublist (py_rstrip (py_lstrip s)) (py_lstrip s)"
    unfolding py_rstrip_def by (simp add: sublist_rev_left)
  moreover have "sublist (py_lstrip s) s" by (simp add: py_lstrip_def)
  ultimately show ?thesis unfolding py_strip_def by (rule sublist_order.order_trans)
qed

lemma no_marker_strip: "\<not> sublist m s \<Longrightarrow> \<not> sublist m (py_strip s)"
  using strip_sublist sublist_order.order_trans by blast

lemma no_marker_across_blank_line:
  assumes "\<not> sublist m a" "\<not> sublist m b" "CHR 0x0A \<notin> set m"
  shows "\<not> sublist m (a @ blank_line @ b)"
proof
  assume "sublist m (a @ blank_line @ b)"
  then obtain ps ss where eq: "a @ blank_line @ b = ps @ m @ ss" by (auto simp: sublist_def)
  have mne: "m \<noteq> []" using assms(1) by auto
  have "length ps + length m \<le> length a \<or> length a + 2 \<le> length ps"
  proof (rule ccontr)
    assume n: "\<not> ?thesis"
    define k where "k = (if length ps \<le> length a then length a else length ps)"
    have k1: "length ps \<le> k" "k < length ps + length m" "length a \<le> k" "k < length a + 2"
      using n mne by (auto simp: k_def)
    have "(a @ blank_line @ b) ! k = CHR 0x0A"
      using k1 by (auto simp: nth_append nth_Cons')
    moreover have "(ps @ m @ ss) ! k = m ! (k - length ps)"
      using k1 by (auto simp: nth_append)
    ultimately have "m ! (k - length ps) = CHR 0x0A" using eq by simp
    moreover have "k - length ps < length m" using k1 by auto
    ultimately show False using assms(3) by (metis nth_mem)
  qed
  then show False
  proof
    assume l: "length ps + length m \<le> length a"
    have "take (length ps + length m) (a @ blank_line @ b) = take (length ps + length m) (ps @ m @ ss)"
      by (simp only: eq)
    then have "take (length ps + length m) a = ps @ m" using l by simp
    then have "sublist m (take (length ps + length m) a)" by simp
    then have "sublist m a" using sublist_take sublist_order.order_trans by blast
    then show False using assms(1) by simp
  next
    assume l: "length a + 2 \<le> length ps"
    have "drop (length a + 2) (a @ blank_line @ b) = drop (length a + 2) (ps @ m @ ss)"
      by (simp only: eq)
    then have "b = drop (length a + 2) ps @ m @ ss" using l by simp
    then have "sublist m b" by (auto simp: sublist_def)
    then show False using assms(2) by simp
  qed
qed


lemma retry_loop_sends_only:
  "Backend_call u \<in> set (trace (snd (retry_loop name be t cid as le w))) \<Longrightarrow>
     Backend_call u \<in> set (trace w) \<or> u = t"
proof (induction as arbitrary: le w)
  case Nil
  then show ?case by (simp split: option.splits)
next
  case (Cons a as)
  show ?case
  proof (cases "be (calls w) t")
    case (Inr buf)
    then show ?thesis using Cons.prems by (auto simp: call_backend_def)
  next
    case (Inl x)
    define w2 where "w2 = (if a < MAX_RETRIES
        then sleep (RETRY_BACKOFF_SECONDS * a) (w\<lparr>calls := calls w + 1, trace := trace w @ [Backend_call t]\<rparr>)
        else w\<lparr>calls := calls w + 1, trace := trace w @ [Backend_call t]\<rparr>)"
    have "Backend_call u \<in> set (trace (snd (retry_loop name be t cid as (Some x) w2)))"
      using Cons.prems Inl by (auto simp: call_backend_def w2_def split: if_splits)
    from Cons.IH[OF this] have "Backend_call u \<in> set (trace w2) \<or> u = t" .
    then show ?thesis by (auto simp: w2_def sleep_def split: if_splits)
  qed
qed

lemma minimax_sends_only: "sends_only (minimax_synthesize_with_retry be)"
  unfolding sends_only_def minimax_synthesize_with_retry_def using retry_loop_sends_only by blast

lemma qwen_sends_only: "sends_only (qwen_synthesize_with_retry be)"
  unfolding sends_only_def qwen_synthesize_with_retry_def using retry_loop_sends_only by blast

lemma gemini_sends_only: "sends_only (gemini_synthesize_chunk gc be)"
  by (auto simp: sends_only_def gemini_synthesize_chunk_def call_backend_def split: sum.splits)

lemma chunks_loop_sends:
  assumes "sends_only synth"
  shows "Backend_call u \<in> set (trace (snd (chunks_loop prep synth tags n xs segs ids w))) \<Longrightarrow>
     Backend_call u \<in> set (trace w) \<or> u \<in> prep ` snd ` set xs"
proof (induction xs arbitrary: segs ids w)
  case Nil
  then show ?case by simp
next
  case (Cons x xs)
  obtain i c where x: "x = (i, c)" by (cases x)
  obtain r w' where s: "synth (prep c) (chunk_id_of tags i n) w = (r, w')"
    by (cases "synth (prep c) (chunk_id_of tags i n) w")
  have step: "\<And>v. Backend_call v \<in> set (trace w') \<Longrightarrow> Backend_call v \<in> set (trace w) \<or> v = prep c"
    using assms s unfolding sends_only_def by (metis snd_conv)
  show ?case
  proof (cases r)
    case (Inl e)
    then show ?thesis using Cons.prems x s step by auto
  next
    case (Inr seg)
    then have "Backend_call u \<in> set (trace (snd (chunks_loop prep synth tags n xs
        (segs @ [seg]) (ids @ [chunk_id_of tags i n]) w')))"
      using Cons.prems x s by simp
    from Cons.IH[OF this] show ?thesis using step x by auto
  qed
qed

lemma text_to_speech_sends:
  assumes "sends_only synth"
    and "Backend_call u \<in> set (trace (snd (text_to_speech co prep synth mc lang ext tx out tags w)))"
  shows "Backend_call u \<in> set (trace w) \<or> u \<in> prep ` set (split_text co tx mc lang)"
proof (cases "py_strip tx = []")
  case True
  then show ?thesis using assms(2) by (simp add: text_to_speech_def)
next
  case False
  let ?cs = "split_text co tx mc lang"
  obtain r wl where l: "chunks_loop prep synth tags (length ?cs) (py_enumerate1 ?cs) [] [] w = (r, wl)"
    by (cases "chunks_loop prep synth tags (length ?cs) (py_enumerate1 ?cs) [] [] w")
  have "Backend_call u \<in> set (trace wl)"
    using assms(2) False l
    by (cases r) (auto simp: text_to_speech_def merge_and_tag_def Let_def split: option.splits prod.splits)
  then have "Backend_call u \<in> set (trace (snd (chunks_loop prep synth tags (length ?cs) (py_enumerate1 ?cs) [] [] w)))"
    using l by simp
  from chunks_loop_sends[OF assms(1) this]
  have "Backend_call u \<in> set (trace w) \<or> u \<in> prep ` snd ` set (py_enumerate1 ?cs)" .
  moreover have "snd ` set (py_enumerate1 ?cs) \<subseteq> set ?cs"
    by (auto simp: py_enumerate1_def dest: set_zip_rightD)
  ultimately show ?thesis by auto
qed

lemma marker_facts: "DEFAULT_BREAK_STRING \<noteq> []" "CHR 0x0A \<notin> set DEFAULT_BREAK_STRING"
  by (simp_all add: DEFAULT_BREAK_STRING_def)

lemma retry_loop_keeps:
  "set (trace w) \<subseteq> set (trace (snd (retry_loop name be t cid as le w)))"
proof (induction as arbitrary: le w)
  case Nil
  then show ?case by (simp split: option.splits)
next
  case (Cons a as)
  show ?case
  proof (cases "be (calls w) t")
    case (Inr buf)
    then show ?thesis by (auto simp: call_backend_def)
  next
    case (Inl x)
    define w2 where "w2 = (if a < MAX_RETRIES
        then sleep (RETRY_BACKOFF_SECONDS * a) (w\<lparr>calls := calls w + 1, trace := trace w @ [Backend_call t]\<rparr>)
        else w\<lparr>calls := calls w + 1, trace := trace w @ [Backend_call t]\<rparr>)"
    have "retry_loop name be t cid (a # as) le w = retry_loop name be t cid as (Some x) w2"
      using Inl by (simp add: call_backend_def w2_def)
    moreover have "set (trace w) \<subseteq> set (trace w2)"
      by (auto simp: w2_def sleep_def)
    ultimately show ?thesis using Cons.IH[where le="Some x" and w=w2] by auto
  qed
qed

lemma retry_loop_sent:
  "fst (retry_loop name be t cid as le w) = Inr a \<Longrightarrow>
     Backend_call t \<in> set (trace (snd (retry_loop name be t cid as le w)))"
proof (induction as arbitrary: le w)
  case Nil
  then show ?case by (simp split: option.splits)
next
  case (Cons x as)
  show ?case
  proof (cases "be (calls w) t")
    case (Inr buf)
    then show ?thesis by (auto simp: call_backend_def)
  next
    case (Inl e)
    define w2 where "w2 = (if x < MAX_RETRIES
        then sleep (RETRY_BACKOFF_SECONDS * x) (w\<lparr>calls := calls w + 1, trace := trace w @ [Backend_call t]\<rparr>)
        else w\<lparr>calls := calls w + 1, trace := trace w @ [Backend_call t]\<rparr>)"
    have eq: "retry_loop name be t cid (x # as) le w = retry_loop name be t cid as (Some e) w2"
      using Inl by (simp add: call_backend_def w2_def)
    then have "fst (retry_loop name be t cid as (Some e) w2) = Inr a" using Cons.prems by simp
    from Cons.IH[OF this] show ?thesis using eq by simp
  qed
qed

lemma gemini_keeps: "set (trace w) \<subseteq> set (trace (snd (gemini_synthesize_chunk gc be t cid w)))"
  by (auto simp: gemini_synthesize_chunk_def call_backend_def split: sum.splits)

lemma gemini_sent: "Backend_call t \<in> set (trace (snd (gemini_synthesize_chunk gc be t cid w)))"
  by (auto simp: gemini_synthesize_chunk_def call_backend_def split: sum.splits)

lemma chunks_loop_sent:
  assumes keeps: "\<And>t c w. set (trace w) \<subseteq> set (trace (snd (synth t c w)))"
    and sent: "\<And>t c w a. fst (synth t c w) = Inr a \<Longrightarrow> Backend_call t \<in> set (trace (snd (synth t c w)))"
  shows "fst (chunks_loop prep synth tags n xs segs ids w) = Inr r \<Longrightarrow>
     set (trace w) \<subseteq> set (trace (snd (chunks_loop prep synth tags n xs segs ids w))) \<and>
     (\<forall>x \<in> set xs. Backend_call (prep (snd x)) \<in>
        set (trace (snd (chunks_loop prep synth tags n xs segs ids w))))"
proof (induction xs arbitrary: segs ids w)
  case Nil
  then show ?case by simp
next
  case (Cons x xs)
  obtain i c where x: "x = (i, c)" by (cases x)
  obtain o' w' where s: "synth (prep c) (chunk_id_of tags i n) w = (o', w')"
    by (cases "synth (prep c) (chunk_id_of tags i n) w")
  show ?case
  proof (cases o')
    case (Inl e)
    then show ?thesis using Cons.prems x s by simp
  next
    case (Inr seg)
    have eq: "chunks_loop prep synth tags n (x # xs) segs ids w =
        chunks_loop prep synth tags n xs (segs @ [seg]) (ids @ [chunk_id_of tags i n]) w'"
      using x s Inr by simp
    then have "fst (chunks_loop prep synth tags n xs (segs @ [seg]) (ids @ [chunk_id_of tags i n]) w') = Inr r"
      using Cons.prems by simp
    from Cons.IH[OF this]
    have ih: "set (trace w') \<subseteq> set (trace (snd (chunks_loop prep synth tags n (x # xs) segs ids w)))"
      "\<forall>y \<in> set xs. Backend_call (prep (snd y)) \<in>
         set (trace (snd (chunks_loop prep synth tags n (x # xs) segs ids w)))"
      using eq by simp_all
    have k: "set (trace w) \<subseteq> set (trace w')"
      using keeps[of w "prep c" "chunk_id_of tags i n"] s by simp
    have "Backend_call (prep c) \<in> set (trace w')"
      using sent[of "prep c" "chunk_id_of tags i n" w seg] s Inr by simp
    then show ?thesis using ih k x by auto
  qed
qed

lemma py_enumerate1_snd: "snd ` set (py_enumerate1 xs) = set xs"
proof -
  have "length [1 ..< length xs + 1] = length xs"
    by (simp only: length_upt add_diff_cancel_right')
  then have "map snd (py_enumerate1 xs) = xs"
    unfolding py_enumerate1_def by (rule map_snd_zip)
  then have "set (map snd (py_enumerate1 xs)) = set xs" by simp
  then show ?thesis by simp
qed

lemma merge_and_tag_keeps:
  "set (trace w) \<subseteq> set (trace (snd (merge_and_tag co segs ids out ext tags w)))"
  by (auto simp: merge_and_tag_def Let_def split: option.splits)

lemma text_to_speech_sent:
  assumes keeps: "\<And>t c w. set (trace w) \<subseteq> set (trace (snd (synth t c w)))"
    and sent: "\<And>t c w a. fst (synth t c w) = Inr a \<Longrightarrow> Backend_call t \<in> set (trace (snd (synth t c w)))"
    and "py_strip tx \<noteq> []"
    and "fst (text_to_speech co prep synth mc lang ext tx out tags w) = Inr ()"
    and "chunk \<in> set (split_text co tx mc lang)"
  shows "Backend_call (prep chunk) \<in>
     set (trace (snd (text_to_speech co prep synth mc lang ext tx out tags w)))"
proof -
  let ?cs = "split_text co tx mc lang"
  obtain r wl where l: "chunks_loop prep synth tags (length ?cs) (py_enumerate1 ?cs) [] [] w = (r, wl)"
    by (cases "chunks_loop prep synth tags (length ?cs) (py_enumerate1 ?cs) [] [] w")
  show ?thesis
  proof (cases r)
    case (Inl e)
    then show ?thesis using assms(3,4) l by (simp add: text_to_speech_def)
  next
    case (Inr sr)
    obtain segs ids where sr: "sr = (segs, ids)" by (cases sr)
    have "fst (chunks_loop prep synth tags (length ?cs) (py_enumerate1 ?cs) [] [] w) = Inr sr"
      using l Inr by simp
    from chunks_loop_sent[of synth, OF keeps sent this]
    have "\<forall>x \<in> set (py_enumerate1 ?cs). Backend_call (prep (snd x)) \<in> set (trace wl)"
      using l by simp
    moreover have "chunk \<in> snd ` set (py_enumerate1 ?cs)"
      using assms(5) by (simp only: py_enumerate1_snd)
    ultimately have "Backend_call (prep chunk) \<in> set (trace wl)" by auto
    moreover have "text_to_speech co prep synth mc lang ext tx out tags w =
        merge_and_tag co segs ids out ext tags wl"
      using assms(3) l Inr sr by (simp add: text_to_speech_def)
    ultimately show ?thesis using merge_and_tag_keeps by fastforce
  qed
qed

lemma gemini_prompt_marked:
  assumes "instr = Some i" "i \<noteq> []" "sublist DEFAULT_BREAK_STRING (py_strip i)"
  shows "sublist DEFAULT_BREAK_STRING (gemini_prepare_prompt instr chunk)"
proof -
  have "sublist (py_strip i) (py_strip i @ blank_line @ py_replace DEFAULT_BREAK_STRING blank_line chunk)"
    by (rule sublist_append_rightI)
  then show ?thesis using assms sublist_order.order_trans
    by (fastforce simp: gemini_prepare_prompt_def)
qed

lemma gemini_prompt_unmarked:
  assumes "case instr of None \<Rightarrow> True | Some i \<Rightarrow> \<not> sublist DEFAULT_BREAK_STRING (py_strip i)"
  shows "\<not> sublist DEFAULT_BREAK_STRING (gemini_prepare_prompt instr chunk)"
proof (cases "instr = None \<or> instr = Some []")
  case True
  then show ?thesis
    using replace_removes_marker[OF marker_facts] by (auto simp: gemini_prepare_prompt_def)
next
  case False
  then obtain i where i: "instr = Some i" "i \<noteq> []" by auto
  then have "\<not> sublist DEFAULT_BREAK_STRING (py_strip i)" using assms by simp
  from no_marker_across_blank_line[OF this replace_removes_marker[OF marker_facts] marker_facts(2)]
  show ?thesis using i by (simp add: gemini_prepare_prompt_def)
qed

text \<open>
  Claim C10, as amended. Whatever the three \<open>text_to_speech\<close> send to the backend is a
  chunk of the split text in which \<open>str.replace\<close> has put a blank line for every
  occurrence of the break marker \<open>" @BRK#"\<close>: for MiniMax and Qwen the stripped result,
  which holds no marker; for Gemini the result, which holds no marker, behind the stripped
  instructions and a blank line when instructions are configured. The prompt of Gemini
  holds no marker when the stripped instructions hold none, and holds one when they do.
  And the chunks are sent: when \<open>text_to_speech\<close> returns on a text that is not blank,
  the prepared form of every chunk has gone to the backend.
\<close>

theorem break_marker_replaced_before_backend:
  "(Backend_call t \<in> set (trace (snd (minimax_text_to_speech co be p tx out tags w))) \<longrightarrow>
      Backend_call t \<in> set (trace w) \<or>
      ((\<exists>c \<in> set (split_text co tx (max_chars p) (language p)).
          t = py_strip (py_replace DEFAULT_BREAK_STRING blank_line c)) \<and>
       \<not> sublist DEFAULT_BREAK_STRING t)) \<and>
   (Backend_call t \<in> set (trace (snd (qwen_text_to_speech co be p tx out tags w))) \<longrightarrow>
      Backend_call t \<in> set (trace w) \<or>
      ((\<exists>c \<in> set (split_text co tx (max_chars p) (language p)).
          t = py_strip (py_replace DEFAULT_BREAK_STRING blank_line c)) \<and>
       \<not> sublist DEFAULT_BREAK_STRING t)) \<and>
   (Backend_call t \<in> set (trace (snd (gemini_text_to_speech co gc gbe p instr tx out tags w))) \<longrightarrow>
      Backend_call t \<in> set (trace w) \<or>
      ((\<exists>c \<in> set (split_text co tx (max_chars p) (language p)).
          t = (case instr of None \<Rightarrow> [] | Some i \<Rightarrow> if i = [] then [] else py_strip i @ blank_line) @
                py_replace DEFAULT_BREAK_STRING blank_line c \<and>
          \<not> sublist DEFAULT_BREAK_STRING (py_replace DEFAULT_BREAK_STRING blank_line c)) \<and>
       ((case instr of None \<Rightarrow> True | Some i \<Rightarrow> \<not> sublist DEFAULT_BREAK_STRING (py_strip i)) \<longrightarrow>
          \<not> sublist DEFAULT_BREAK_STRING t) \<and>
       (\<forall>i. instr = Some i \<and> i \<noteq> [] \<and> sublist DEFAULT_BREAK_STRING (py_strip i) \<longrightarrow>
          sublist DEFAULT_BREAK_STRING t))) \<and>
   (py_strip tx \<noteq> [] \<and> chunk \<in> set (split_text co tx (max_chars p) (language p)) \<longrightarrow>
      (fst (minimax_text_to_speech co be p tx out tags w) = Inr () \<longrightarrow>
         Backend_call (py_strip (py_replace DEFAULT_BREAK_STRING blank_line chunk)) \<in>
           set (trace (snd (minimax_text_to_speech co be p tx out tags w)))) \<and>
      (fst (qwen_text_to_speech co be p tx out tags w) = Inr () \<longrightarrow>
         Backend_call (py_strip (py_replace DEFAULT_BREAK_STRING blank_line chunk)) \<in>
           set (trace (snd (qwen_text_to_speech co be p tx out tags w)))) \<and>
      (fst (gemini_text_to_speech co gc gbe p instr tx out tags w) = Inr () \<longrightarrow>
         Backend_call
           ((case instr of None \<Rightarrow> [] | Some i \<Rightarrow> if i = [] then [] else py_strip i @ blank_line) @
              py_replace DEFAULT_BREAK_STRING blank_line chunk) \<in>
           set (trace (snd (gemini_text_to_speech co gc gbe p instr tx out tags w)))))"
proof (intro conjI impI)
  assume "Backend_call t \<in> set (trace (snd (minimax_text_to_speech co be p tx out tags w)))"
  from text_to_speech_sends[OF minimax_sends_only this[unfolded minimax_text_to_speech_def]]
  show "Backend_call t \<in> set (trace w) \<or>
      ((\<exists>c \<in> set (split_text co tx (max_chars p) (language p)).
          t = py_strip (py_replace DEFAULT_BREAK_STRING blank_line c)) \<and>
       \<not> sublist DEFAULT_BREAK_STRING t)"
    using no_marker_strip[OF replace_removes_marker[OF marker_facts]]
    by (auto simp: minimax_prepare_text_def)
next
  assume "Backend_call t \<in> set (trace (snd (qwen_text_to_speech co be p tx out tags w)))"
  from text_to_speech_sends[OF qwen_sends_only this[unfolded qwen_text_to_speech_def]]
  show "Backend_call t \<in> set (trace w) \<or>
      ((\<exists>c \<in> set (split_text co tx (max_chars p) (language p)).
          t = py_strip (py_replace DEFAULT_BREAK_STRING blank_line c)) \<and>
       \<not> sublist DEFAULT_BREAK_STRING t)"
    using no_marker_strip[OF replace_removes_marker[OF marker_facts]]
    by (auto simp: qwen_prepare_text_def)
next
  let ?hdr = "case instr of None \<Rightarrow> [] | Some i \<Rightarrow> if i = [] then [] else py_strip i @ blank_line"
  have hdr: "\<And>c. gemini_prepare_prompt instr c = ?hdr @ py_replace DEFAULT_BREAK_STRING blank_line c"
    by (simp add: gemini_prepare_prompt_def split: option.splits)
  assume "Backend_call t \<in> set (trace (snd (gemini_text_to_speech co gc gbe p instr tx out tags w)))"
  from text_to_speech_sends[OF gemini_sends_only this[unfolded gemini_text_to_speech_def]]
  have "Backend_call t \<in> set (trace w) \<or>
      (\<exists>c \<in> set (split_text co tx (max_chars p) (language p)). t = gemini_prepare_prompt instr c)"
    by auto
  then show "Backend_call t \<in> set (trace w) \<or>
      ((\<exists>c \<in> set (split_text co tx (max_chars p) (language p)).
          t = ?hdr @ py_replace DEFAULT_BREAK_STRING blank_line c \<and>
          \<not> sublist DEFAULT_BREAK_STRING (py_replace DEFAULT_BREAK_STRING blank_line c)) \<and>
       ((case instr of None \<Rightarrow> True | Some i \<Rightarrow> \<not> sublist DEFAULT_BREAK_STRING (py_strip i)) \<longrightarrow>
          \<not> sublist DEFAULT_BREAK_STRING t) \<and>
       (\<forall>i. instr = Some i \<and> i \<noteq> [] \<and> sublist DEFAULT_BREAK_STRING (py_strip i) \<longrightarrow>
          sublist DEFAULT_BREAK_STRING t))"
  proof
    assume "Backend_call t \<in> set (trace w)"
    then show ?thesis by simp
  next
    assume "\<exists>c \<in> set (split_text co tx (max_chars p) (language p)). t = gemini_prepare_prompt instr c"
    then obtain c where c: "c \<in> set (split_text co tx (max_chars p) (language p))"
      "t = gemini_prepare_prompt instr c" by auto
    have 1: "\<exists>c \<in> set (split_text co tx (max_chars p) (language p)).
          t = ?hdr @ py_replace DEFAULT_BREAK_STRING blank_line c \<and>
          \<not> sublist DEFAULT_BREAK_STRING (py_replace DEFAULT_BREAK_STRING blank_line c)"
      using c hdr replace_removes_marker[OF marker_facts] by blast
    have 2: "(case instr of None \<Rightarrow> True | Some i \<Rightarrow> \<not> sublist DEFAULT_BREAK_STRING (py_strip i)) \<longrightarrow>
          \<not> sublist DEFAULT_BREAK_STRING t"
      using gemini_prompt_unmarked c(2) by blast
    have 3: "\<forall>i. instr = Some i \<and> i \<noteq> [] \<and> sublist DEFAULT_BREAK_STRING (py_strip i) \<longrightarrow>
          sublist DEFAULT_BREAK_STRING t"
      using gemini_prompt_marked c(2) by blast
    show ?thesis using 1 2 3 by blast
  qed
next
  assume a: "py_strip tx \<noteq> [] \<and> chunk \<in> set (split_text co tx (max_chars p) (language p))"
    and r: "fst (minimax_text_to_speech co be p tx out tags w) = Inr ()"
  have "Backend_call (minimax_prepare_text chunk) \<in>
      set (trace (snd (text_to_speech co minimax_prepare_text (minimax_synthesize_with_retry be)
        (max_chars p) (language p) (output_format p) tx out tags w)))"
  proof (rule text_to_speech_sent)
    show "py_strip tx \<noteq> []" using a by simp
    show "chunk \<in> set (split_text co tx (max_chars p) (language p))" using a by simp
    show "fst (text_to_speech co minimax_prepare_text (minimax_synthesize_with_retry be)
        (max_chars p) (language p) (output_format p) tx out tags w) = Inr ()"
      using r by (simp add: minimax_text_to_speech_def)
    show "\<And>t c w. set (trace w) \<subseteq> set (trace (snd (minimax_synthesize_with_retry be t c w)))"
      unfolding minimax_synthesize_with_retry_def by (rule retry_loop_keeps)
    show "\<And>t c w a. fst (minimax_synthesize_with_retry be t c w) = Inr a \<Longrightarrow>
        Backend_call t \<in> set (trace (snd (minimax_synthesize_with_retry be t c w)))"
      unfolding minimax_synthesize_with_retry_def by (rule retry_loop_sent)
  qed
  then show "Backend_call (py_strip (py_replace DEFAULT_BREAK_STRING blank_line chunk)) \<in>
      set (trace (snd (minimax_text_to_speech co be p tx out tags w)))"
    by (simp add: minimax_text_to_speech_def minimax_prepare_text_def)
next
  assume a: "py_strip tx \<noteq> [] \<and> chunk \<in> set (split_text co tx (max_chars p) (language p))"
    and r: "fst (qwen_text_to_speech co be p tx out tags w) = Inr ()"
  have "Backend_call (qwen_prepare_text chunk) \<in>
      set (trace (snd (text_to_speech co qwen_prepare_text (qwen_synthesize_with_retry be)
        (max_chars p) (language p) (output_format p) tx out tags w)))"
  proof (rule text_to_speech_sent)
    show "py_strip tx \<noteq> []" using a by simp
    show "chunk \<in> set (split_text co tx (max_chars p) (language p))" using a by simp
    show "fst (text_to_speech co qwen_prepare_text (qwen_synthesize_with_retry be)
        (max_chars p) (language p) (output_format p) tx out tags w) = Inr ()"
      using r by (simp add: qwen_text_to_speech_def)
    show "\<And>t c w. set (trace w) \<subseteq> set (trace (snd (qwen_synthesize_with_retry be t c w)))"
      unfolding qwen_synthesize_with_retry_def by (rule retry_loop_keeps)
    show "\<And>t c w a. fst (qwen_synthesize_with_retry be t c w) = Inr a \<Longrightarrow>
        Backend_call t \<in> set (trace (snd (qwen_synthesize_with_retry be t c w)))"
      unfolding qwen_synthesize_with_retry_def by (rule retry_loop_sent)
  qed
  then show "Backend_call (py_strip (py_replace DEFAULT_BREAK_STRING blank_line chunk)) \<in>
      set (trace (snd (qwen_text_to_speech co be p tx out tags w)))"
    by (simp add: qwen_text_to_speech_def qwen_prepare_text_def)
next
  let ?hdr = "case instr of None \<Rightarrow> [] | Some i \<Rightarrow> if i = [] then [] else py_strip i @ blank_line"
  have hdr: "\<And>c. gemini_prepare_prompt instr c = ?hdr @ py_replace DEFAULT_BREAK_STRING blank_line c"
    by (simp add: gemini_prepare_prompt_def split: option.splits)
  assume a: "py_strip tx \<noteq> [] \<and> chunk \<in> set (split_text co tx (max_chars p) (language p))"
    and r: "fst (gemini_text_to_speech co gc gbe p instr tx out tags w) = Inr ()"
  have "Backend_call (gemini_prepare_prompt instr chunk) \<in>
      set (trace (snd (text_to_speech co (gemini_prepare_prompt instr) (gemini_synthesize_chunk gc gbe)
        (max_chars p) (language p) (output_format p) tx out tags w)))"
  proof (rule text_to_speech_sent)
    show "py_strip tx \<noteq> []" using a by simp
    show "chunk \<in> set (split_text co tx (max_chars p) (language p))" using a by simp
    show "fst (text_to_speech co (gemini_prepare_prompt instr) (gemini_synthesize_chunk gc gbe)
        (max_chars p) (language p) (output_format p) tx out tags w) = Inr ()"
      using r by (simp add: gemini_text_to_speech_def)
    show "\<And>t c w. set (trace w) \<subseteq> set (trace (snd (gemini_synthesize_chunk gc gbe t c w)))"
      by (rule gemini_keeps)
    show "\<And>t c w a. fst (gemini_synthesize_chunk gc gbe t c w) = Inr a \<Longrightarrow>
        Backend_call t \<in> set (trace (snd (gemini_synthesize_chunk gc gbe t c w)))"
      by (rule gemini_sent)
  qed
  then show "Backend_call (?hdr @ py_replace DEFAULT_BREAK_STRING blank_line chunk) \<in>
      set (trace (snd (gemini_text_to_speech co gc gbe p instr tx out tags w)))"
    by (simp only: gemini_text_to_speech_def hdr)
qed

lemma example_minimax_marker_run:
  "minimax_text_to_speech collaborators_whole (backend_up_from 0)
       \<lparr>max_chars = 4500, language = ''en-US'', output_format = ''mp3''\<rparr>
       ''Dear @BRK#reader'' ''out.mp3'' \<lparr>idx = 1, title = ''T''\<rparr> world0 =
     (Inr (), \<lparr>calls = 1, trace =
       [Backend_call (''Dear'' @ blank_line @ ''reader''),
        Merge [''audio of '' @ ''Dear'' @ blank_line @ ''reader''] ''out.mp3'' ''mp3''
          [''chapter-1_T_chunk_1_of_1''] True,
        Set_tags ''out.mp3'']\<rparr>)"
  unfolding minimax_text_to_speech_def minimax_synthesize_with_retry_def attempts_list
  by (simp add: text_to_speech_def collaborators_whole_def splitter_whole_def merge_fine_def tags_fine_def
      merge_and_tag_def py_strip_def py_lstrip_def py_rstrip_def py_isspace_def py_enumerate1_def upt_rec
      minimax_prepare_text_def DEFAULT_BREAK_STRING_def call_backend_def backend_up_from_def
      chunk_id_of_def py_str_int_def py_str_nat.simps)

lemma example_qwen_marker_run:
  "qwen_text_to_speech collaborators_whole (backend_up_from 1)
       \<lparr>max_chars = 550, language = ''zh-CN'', output_format = ''wav''\<rparr>
       ''Dear @BRK#reader @BRK#'' ''out.wav'' \<lparr>idx = 1, title = ''T''\<rparr> world0 =
     (Inr (), \<lparr>calls = 2, trace =
       [Backend_call (''Dear'' @ blank_line @ ''reader''), Sleep 2,
        Backend_call (''Dear'' @ blank_line @ ''reader''),
        Merge [''audio of '' @ ''Dear'' @ blank_line @ ''reader''] ''out.wav'' ''wav''
          [''chapter-1_T_chunk_1_of_1''] True,
        Set_tags ''out.wav'']\<rparr>)"
  unfolding qwen_text_to_speech_def qwen_synthesize_with_retry_def attempts_list
  by (simp add: text_to_speech_def collaborators_whole_def splitter_whole_def merge_fine_def tags_fine_def
      merge_and_tag_def py_strip_def py_lstrip_def py_rstrip_def py_isspace_def py_enumerate1_def upt_rec
      qwen_prepare_text_def DEFAULT_BREAK_STRING_def call_backend_def sleep_def backend_up_from_def
      MAX_RETRIES_def RETRY_BACKOFF_SECONDS_def chunk_id_of_def py_str_int_def py_str_nat.simps)

lemma example_gemini_marker_run:
  "gemini_text_to_speech collaborators_whole codec_plain (gemini_up_from 0)
       \<lparr>max_chars = 1800, language = ''en-US'', output_format = ''wav''\<rparr> (Some ''Read slowly. '')
       ''Dear @BRK#reader'' ''out.wav'' \<lparr>idx = 1, title = ''T''\<rparr> world0 =
     (Inr (), \<lparr>calls = 1, trace =
       [Backend_call (''Read slowly.'' @ blank_line @ ''Dear'' @ blank_line @ ''reader''),
        Merge [''pcm of '' @ ''Read slowly.'' @ blank_line @ ''Dear'' @ blank_line @ ''reader''] ''out.wav'' ''wav''
          [''chapter-1_T_chunk_1_of_1''] True,
        Set_tags ''out.wav'']\<rparr>)"
  unfolding gemini_text_to_speech_def
  by (simp add: text_to_speech_def collaborators_whole_def splitter_whole_def merge_fine_def tags_fine_def
      merge_and_tag_def py_strip_def py_lstrip_def py_rstrip_def py_isspace_def py_enumerate1_def upt_rec
      gemini_prepare_prompt_def DEFAULT_BREAK_STRING_def gemini_synthesize_chunk_def call_backend_def gemini_up_from_def
      extract_pcm_bytes_def List.map_filter_def truthy_data_def codec_plain_def
      chunk_id_of_def py_str_int_def py_str_nat.simps)

lemma example_prepared:
  "py_strip (py_replace DEFAULT_BREAK_STRING blank_line ''Dear @BRK#reader'') =
     ''Dear'' @ blank_line @ ''reader''"
  "py_strip (py_replace DEFAULT_BREAK_STRING blank_line ''Dear @BRK#reader @BRK#'') =
     ''Dear'' @ blank_line @ ''reader''"
  "py_replace DEFAULT_BREAK_STRING blank_line ''Dear @BRK#reader'' =
     ''Dear'' @ blank_line @ ''reader''"
  "py_strip ''Read slowly. '' = ''Read slowly.''"
  "py_strip ''Dear @BRK#reader'' \<noteq> []"
  "py_strip ''Dear @BRK#reader @BRK#'' \<noteq> []"
  by (simp_all add: DEFAULT_BREAK_STRING_def py_strip_def py_lstrip_def py_rstrip_def py_isspace_def)

lemma example_header_clean:
  "\<not> sublist DEFAULT_BREAK_STRING ''Read slowly.''"
  by (simp add: DEFAULT_BREAK_STRING_def sublist_Cons_right)

theorem break_marker_replaced_before_backend_witness:
  "minimax_text_to_speech collaborators_whole (backend_up_from 0)
       \<lparr>max_chars = 4500, language = ''en-US'', output_format = ''mp3''\<rparr>
       ''Dear @BRK#reader'' ''out.mp3'' \<lparr>idx = 1, title = ''T''\<rparr> world0 =
     (Inr (), \<lparr>calls = 1, trace =
       [Backend_call (''Dear'' @ blank_line @ ''reader''),
        Merge [''audio of '' @ ''Dear'' @ blank_line @ ''reader''] ''out.mp3'' ''mp3''
          [''chapter-1_T_chunk_1_of_1''] True,
        Set_tags ''out.mp3'']\<rparr>) \<and>
   qwen_text_to_speech collaborators_whole (backend_up_from 1)
       \<lparr>max_chars = 550, language = ''zh-CN'', output_format = ''wav''\<rparr>
       ''Dear @BRK#reader @BRK#'' ''out.wav'' \<lparr>idx = 1, title = ''T''\<rparr> world0 =
     (Inr (), \<lparr>calls = 2, trace =
       [Backend_call (''Dear'' @ blank_line @ ''reader''), Sleep 2,
        Backend_call (''Dear'' @ blank_line @ ''reader''),
        Merge [''audio of '' @ ''Dear'' @ blank_line @ ''reader''] ''out.wav'' ''wav''
          [''chapter-1_T_chunk_1_of_1''] True,
        Set_tags ''out.wav'']\<rparr>) \<and>
   gemini_text_to_speech collaborators_whole codec_plain (gemini_up_from 0)
       \<lparr>max_chars = 1800, language = ''en-US'', output_format = ''wav''\<rparr> (Some ''Read slowly. '')
       ''Dear @BRK#reader'' ''out.wav'' \<lparr>idx = 1, title = ''T''\<rparr> world0 =
     (Inr (), \<lparr>calls = 1, trace =
       [Backend_call (''Read slowly.'' @ blank_line @ ''Dear'' @ blank_line @ ''reader''),
        Merge [''pcm of '' @ ''Read slowly.'' @ blank_line @ ''Dear'' @ blank_line @ ''reader''] ''out.wav'' ''wav''
          [''chapter-1_T_chunk_1_of_1''] True,
        Set_tags ''out.wav'']\<rparr>) \<and>
   Backend_call (''Dear'' @ blank_line @ ''reader'') \<in>
     set (trace (snd (minimax_text_to_speech collaborators_whole (backend_up_from 0)
       \<lparr>max_chars = 4500, language = ''en-US'', output_format = ''mp3''\<rparr>
       ''Dear @BRK#reader'' ''out.mp3'' \<lparr>idx = 1, title = ''T''\<rparr> world0))) \<and>
   Backend_call (''Dear'' @ blank_line @ ''reader'') \<in>
     set (trace (snd (qwen_text_to_speech collaborators_whole (backend_up_from 1)
       \<lparr>max_chars = 550, language = ''zh-CN'', output_format = ''wav''\<rparr>
       ''Dear @BRK#reader @BRK#'' ''out.wav'' \<lparr>idx = 1, title = ''T''\<rparr> world0))) \<and>
   Backend_call (''Read slowly.'' @ blank_line @ ''Dear'' @ blank_line @ ''reader'') \<in>
     set (trace (snd (gemini_text_to_speech collaborators_whole codec_plain (gemini_up_from 0)
       \<lparr>max_chars = 1800, language = ''en-US'', output_format = ''wav''\<rparr> (Some ''Read slowly. '')
       ''Dear @BRK#reader'' ''out.wav'' \<lparr>idx = 1, title = ''T''\<rparr> world0))) \<and>
   \<not> sublist DEFAULT_BREAK_STRING (''Dear'' @ blank_line @ ''reader'') \<and>
   \<not> sublist DEFAULT_BREAK_STRING (''Read slowly.'' @ blank_line @ ''Dear'' @ blank_line @ ''reader'')"
proof -
  let ?pm = "\<lparr>max_chars = 4500, language = ''en-US'', output_format = ''mp3''\<rparr>"
  let ?pq = "\<lparr>max_chars = 550, language = ''zh-CN'', output_format = ''wav''\<rparr>"
  let ?pg = "\<lparr>max_chars = 1800, language = ''en-US'', output_format = ''wav''\<rparr>"
  let ?tags = "\<lparr>idx = 1, title = ''T''\<rparr>"
  let ?d = "''Dear'' @ blank_line @ ''reader''"
  let ?g = "''Read slowly.'' @ blank_line @ ''Dear'' @ blank_line @ ''reader''"
  let ?M = "minimax_text_to_speech collaborators_whole (backend_up_from 0) ?pm
      ''Dear @BRK#reader'' ''out.mp3'' ?tags world0"
  let ?Q = "qwen_text_to_speech collaborators_whole (backend_up_from 1) ?pq
      ''Dear @BRK#reader @BRK#'' ''out.wav'' ?tags world0"
  let ?G = "gemini_text_to_speech collaborators_whole codec_plain (gemini_up_from 0) ?pg
      (Some ''Read slowly. '') ''Dear @BRK#reader'' ''out.wav'' ?tags world0"
  have s: "\<And>t n l. t \<in> set (split_text collaborators_whole t n l)"
    by (simp add: collaborators_whole_def splitter_whole_def)
  have e: "trace world0 = []" by simp
  have hm: "py_strip ''Dear @BRK#reader'' \<noteq> [] \<and>
      ''Dear @BRK#reader'' \<in> set (split_text collaborators_whole ''Dear @BRK#reader''
         (max_chars ?pm) (language ?pm))"
    using example_prepared(5) s by blast
  have fm: "fst ?M = Inr ()" by (simp only: example_minimax_marker_run fst_conv)
  have "Backend_call (py_strip (py_replace DEFAULT_BREAK_STRING blank_line ''Dear @BRK#reader'')) \<in>
      set (trace (snd ?M))"
    using break_marker_replaced_before_backend[where co=collaborators_whole
        and be="backend_up_from 0" and p="?pm" and tx="''Dear @BRK#reader''"
        and out="''out.mp3''" and tags="?tags" and w=world0 and chunk="''Dear @BRK#reader''",
        THEN conjunct2, THEN conjunct2, THEN conjunct2] hm fm
    by blast
  then have m1: "Backend_call ?d \<in> set (trace (snd ?M))"
    by (simp only: example_prepared(1))
  have "Backend_call ?d \<in> set (trace world0) \<or>
      ((\<exists>c \<in> set (split_text collaborators_whole ''Dear @BRK#reader'' (max_chars ?pm) (language ?pm)).
          ?d = py_strip (py_replace DEFAULT_BREAK_STRING blank_line c)) \<and>
       \<not> sublist DEFAULT_BREAK_STRING ?d)"
    using break_marker_replaced_before_backend[where co=collaborators_whole
        and be="backend_up_from 0" and p="?pm" and tx="''Dear @BRK#reader''"
        and out="''out.mp3''" and tags="?tags" and w=world0 and t="?d", THEN conjunct1] m1
    by blast
  then have m2: "\<not> sublist DEFAULT_BREAK_STRING ?d"
    unfolding e by simp
  have hq: "py_strip ''Dear @BRK#reader @BRK#'' \<noteq> [] \<and>
      ''Dear @BRK#reader @BRK#'' \<in> set (split_text collaborators_whole ''Dear @BRK#reader @BRK#''
         (max_chars ?pq) (language ?pq))"
    using example_prepared(6) s by blast
  have fq: "fst ?Q = Inr ()" by (simp only: example_qwen_marker_run fst_conv)
  have "Backend_call (py_strip (py_replace DEFAULT_BREAK_STRING blank_line ''Dear @BRK#reader @BRK#'')) \<in>
      set (trace (snd ?Q))"
    using break_marker_replaced_before_backend[where co=collaborators_whole
        and be="backend_up_from 1" and p="?pq" and tx="''Dear @BRK#reader @BRK#''"
        and out="''out.wav''" and tags="?tags" and w=world0 and chunk="''Dear @BRK#reader @BRK#''",
        THEN conjunct2, THEN conjunct2, THEN conjunct2] hq fq
    by blast
  then have q1: "Backend_call ?d \<in> set (trace (snd ?Q))"
    by (simp only: example_prepared(2))
  have hg: "py_strip ''Dear @BRK#reader'' \<noteq> [] \<and>
      ''Dear @BRK#reader'' \<in> set (split_text collaborators_whole ''Dear @BRK#reader''
         (max_chars ?pg) (language ?pg))"
    using example_prepared(5) s by blast
  have fg: "fst ?G = Inr ()" by (simp only: example_gemini_marker_run fst_conv)
  have "Backend_call ((case Some ''Read slowly. '' of None \<Rightarrow> []
        | Some i \<Rightarrow> if i = [] then [] else py_strip i @ blank_line) @
        py_replace DEFAULT_BREAK_STRING blank_line ''Dear @BRK#reader'') \<in> set (trace (snd ?G))"
    using break_marker_replaced_before_backend[where co=collaborators_whole
        and gc=codec_plain and gbe="gemini_up_from 0" and instr="Some ''Read slowly. ''"
        and p="?pg" and tx="''Dear @BRK#reader''"
        and out="''out.wav''" and tags="?tags" and w=world0 and chunk="''Dear @BRK#reader''",
        THEN conjunct2, THEN conjunct2, THEN conjunct2] hg fg
    by blast
  then have g1: "Backend_call ?g \<in> set (trace (snd ?G))"
    unfolding example_prepared(3) by (simp add: example_prepared(4))
  have c: "case Some ''Read slowly. '' of None \<Rightarrow> True
      | Some i \<Rightarrow> \<not> sublist DEFAULT_BREAK_STRING (py_strip i)"
    using example_header_clean by (simp add: example_prepared(4))
  have "Backend_call ?g \<in> set (trace world0) \<or>
      ((\<exists>c \<in> set (split_text collaborators_whole ''Dear @BRK#reader'' (max_chars ?pg) (language ?pg)).
          ?g = (case Some ''Read slowly. '' of None \<Rightarrow> []
                | Some i \<Rightarrow> if i = [] then [] else py_strip i @ blank_line) @
                py_replace DEFAULT_BREAK_STRING blank_line c \<and>
          \<not> sublist DEFAULT_BREAK_STRING (py_replace DEFAULT_BREAK_STRING blank_line c)) \<and>
       ((case Some ''Read slowly. '' of None \<Rightarrow> True
         | Some i \<Rightarrow> \<not> sublist DEFAULT_BREAK_STRING (py_strip i)) \<longrightarrow>
          \<not> sublist DEFAULT_BREAK_STRING ?g) \<and>
       (\<forall>i. Some ''Read slowly. '' = Some i \<and> i \<noteq> [] \<and> sublist DEFAULT_BREAK_STRING (py_strip i) \<longrightarrow>
          sublist DEFAULT_BREAK_STRING ?g))"
    using break_marker_replaced_before_backend[where co=collaborators_whole
        and gc=codec_plain and gbe="gemini_up_from 0" and instr="Some ''Read slowly. ''"
        and p="?pg" and tx="''Dear @BRK#reader''"
        and out="''out.wav''" and tags="?tags" and w=world0 and t="?g",
        THEN conjunct2, THEN conjunct2, THEN conjunct1] g1
    by blast
  moreover have "Backend_call ?g \<notin> set (trace world0)" by simp
  ultimately have g2: "\<not> sublist DEFAULT_BREAK_STRING ?g"
    using c by blast
  show ?thesis
    using example_minimax_marker_run example_qwen_marker_run example_gemini_marker_run
      m1 m2 q1 g1 g2
    by blast
qed

lemma example_gemini_marked_instructions_run:
  "gemini_text_to_speech collaborators_whole codec_plain (gemini_up_from 0)
       \<lparr>max_chars = 1800, language = ''en-US'', output_format = ''wav''\<rparr>
       (Some ''Pause at @BRK# marks.'')
       ''Hello'' ''out.wav'' \<lparr>idx = 1, title = ''T''\<rparr> world0 =
     (Inr (), \<lparr>calls = 1, trace =
       [Backend_call (''Pause at @BRK# marks.'' @ blank_line @ ''Hello''),
        Merge [''pcm of '' @ ''Pause at @BRK# marks.'' @ blank_line @ ''Hello''] ''out.wav'' ''wav''
          [''chapter-1_T_chunk_1_of_1''] True,
        Set_tags ''out.wav'']\<rparr>)"
  unfolding gemini_text_to_speech_def
  by (simp add: text_to_speech_def collaborators_whole_def splitter_whole_def merge_fine_def tags_fine_def
      merge_and_tag_def py_strip_def py_lstrip_def py_rstrip_def py_isspace_def py_enumerate1_def upt_rec
      gemini_prepare_prompt_def DEFAULT_BREAK_STRING_def gemini_synthesize_chunk_def call_backend_def gemini_up_from_def
      extract_pcm_bytes_def List.map_filter_def truthy_data_def codec_plain_def
      chunk_id_of_def py_str_int_def py_str_nat.simps)

text \<open>
  The claim as written fails for Gemini: the configured instructions are stripped and put
  before the chunk as they are, so a break marker in them goes to the backend, with a
  chunk that holds no marker at all.
\<close>

theorem gemini_instructions_marker_sent:
  "gemini_text_to_speech collaborators_whole codec_plain (gemini_up_from 0)
       \<lparr>max_chars = 1800, language = ''en-US'', output_format = ''wav''\<rparr>
       (Some ''Pause at @BRK# marks.'')
       ''Hello'' ''out.wav'' \<lparr>idx = 1, title = ''T''\<rparr> world0 =
     (Inr (), \<lparr>calls = 1, trace =
       [Backend_call (''Pause at @BRK# marks.'' @ blank_line @ ''Hello''),
        Merge [''pcm of '' @ ''Pause at @BRK# marks.'' @ blank_line @ ''Hello''] ''out.wav'' ''wav''
          [''chapter-1_T_chunk_1_of_1''] True,
        Set_tags ''out.wav'']\<rparr>) \<and>
   sublist DEFAULT_BREAK_STRING (''Pause at @BRK# marks.'' @ blank_line @ ''Hello'')"
proof -
  have "''Pause at @BRK# marks.'' @ blank_line @ ''Hello'' =
      ''Pause at'' @ DEFAULT_BREAK_STRING @ ('' marks.'' @ blank_line @ ''Hello'')"
    by (simp add: DEFAULT_BREAK_STRING_def)
  then have "sublist DEFAULT_BREAK_STRING (''Pause at @BRK# marks.'' @ blank_line @ ''Hello'')"
    by (simp only: sublist_appendI)
  then show ?thesis using example_gemini_marked_instructions_run by simp
qed

section \<open>Properties of the parser\<close>

subsection \<open>The example of the specification\<close>

text \<open>
  Claim C4, as amended. On the example document, with the newline mode \<open>double\<close>, the
  break marker \<open>" @BRK#"\<close>, no stripping of numbers and no rules of the user,
  \<open>get_chapters\<close> returns two chapters, under the sanitized titles \<open>Prologue\<close> and
  \<open>One\<close>, with the texts \<open>Prologue @BRK# Hello.\<close> and \<open>One @BRK# World bold.\<close>: the
  bold markers are stripped, and the break marker stands between the heading and the body
  of each chapter, which are joined by a blank line.
\<close>

theorem get_chapters_example:
  "get_chapters (MarkdownBookParser file ''double'' False False example_document)
     \<lparr>sanitize_title = san, search_and_replaces = [], user_re_sub = rs\<rparr> DEFAULT_BREAK_STRING =
   Inr [(san ''Prologue'' DEFAULT_BREAK_STRING, ''Prologue @BRK# Hello.''),
        (san ''One'' DEFAULT_BREAK_STRING, ''One @BRK# World bold.'')]"
  by code_simp

text \<open>
  The claim as written fails: the texts are not \<open>Prologue Hello.\<close> and
  \<open>One World bold.\<close>, each holds the break marker.
\<close>

theorem get_chapters_example_not_as_claimed:
  "get_chapters (MarkdownBookParser ''book.md'' ''double'' False False example_document)
     plain_env DEFAULT_BREAK_STRING \<noteq>
   Inr [(''Prologue'', ''Prologue Hello.''), (''One'', ''One World bold.'')]"
  by code_simp

subsection \<open>Front matter\<close>

lemma last_wins_Nil: "last_wins [] = Map.empty"
  by (rule ext) (simp add: last_wins_def)

lemma last_wins_Cons_match:
  "metadata_match l = Some (k, v) \<Longrightarrow> m(k \<mapsto> v) ++ last_wins ls = m ++ last_wins (l # ls)"
proof (rule ext)
  fix x
  assume mm: "metadata_match l = Some (k, v)"
  show "(m(k \<mapsto> v) ++ last_wins ls) x = (m ++ last_wins (l # ls)) x"
  proof (cases "filter (gives_key x) ls")
    case Nil
    then show ?thesis using mm
      by (auto simp: last_wins_def gives_key_def map_add_def)
  next
    case (Cons a as)
    have "last (a # as) \<in> set (filter (gives_key x) ls)" unfolding Cons by (rule last_in_set) simp
    then have "gives_key x (last (a # as))" by simp
    then obtain w where w: "metadata_match (last (a # as)) = Some (x, w)"
      by (auto simp: gives_key_def split: option.splits)
    have l1: "last_wins ls x = Some w" using Cons w by (simp add: last_wins_def)
    have "last_wins (l # ls) x = Some w"
    proof (cases "gives_key x l")
      case True
      then have "filter (gives_key x) (l # ls) = l # a # as" using Cons by simp
      then show ?thesis using w by (simp add: last_wins_def)
    next
      case False
      then have "filter (gives_key x) (l # ls) = a # as" using Cons by simp
      then show ?thesis using w by (simp add: last_wins_def)
    qed
    then show ?thesis using l1 by (simp add: map_add_def)
  qed
qed

lemma last_wins_Cons_nomatch:
  "metadata_match l = None \<Longrightarrow> last_wins (l # ls) = last_wins ls"
  by (rule ext) (simp add: last_wins_def gives_key_def)

lemma front_matter_loop_closed:
  assumes "\<forall>l \<in> set pre. \<not> front_matter_delimiter l" "front_matter_delimiter closing"
  shows "front_matter_loop md i (pre @ closing # post) = (md ++ last_wins pre, i + length pre + 1)"
  using assms(1)
proof (induction pre arbitrary: md i)
  case Nil
  then show ?case using assms(2) by (simp add: last_wins_Nil)
next
  case (Cons l pre)
  show ?case
  proof (cases "metadata_match l")
    case None
    then show ?thesis using Cons by (simp add: last_wins_Cons_nomatch)
  next
    case (Some kv)
    obtain k v where kv: "kv = (k, v)" by (cases kv)
    then show ?thesis using Cons Some last_wins_Cons_match[of l k v md pre] by simp
  qed
qed

text \<open>
  Claim C7, as amended. When the first line of the document is a front matter delimiter
  and \<open>closing\<close> is the next delimiter line, the lines between them that match
  \<open>key: value\<close> are the metadata, each under its key stripped and in lower case, and of
  the lines that give the same key the last one wins: its value overwrites the earlier
  ones. The body is what follows the closing delimiter. When the first line is no
  delimiter, or there is no line, there is no metadata and all the lines are the body.
\<close>

theorem extract_front_matter_last_wins:
  "(py_splitlines t = first # pre @ closing # post \<and> front_matter_delimiter first \<and>
      (\<forall>l \<in> set pre. \<not> front_matter_delimiter l) \<and> front_matter_delimiter closing \<longrightarrow>
      extract_front_matter t = (last_wins pre, post)) \<and>
   ((case py_splitlines t of [] \<Rightarrow> True | l # ls \<Rightarrow> \<not> front_matter_delimiter l) \<longrightarrow>
      extract_front_matter t = (Map.empty, py_splitlines t))"
proof (intro conjI impI)
  assume a: "py_splitlines t = first # pre @ closing # post \<and> front_matter_delimiter first \<and>
      (\<forall>l \<in> set pre. \<not> front_matter_delimiter l) \<and> front_matter_delimiter closing"
  then have l: "front_matter_loop Map.empty 1 (pre @ closing # post) = (last_wins pre, 1 + length pre + 1)"
    using front_matter_loop_closed[of pre closing Map.empty 1 post] by simp
  show "extract_front_matter t = (last_wins pre, post)"
    using a l by (simp add: extract_front_matter_def)
next
  assume "case py_splitlines t of [] \<Rightarrow> True | l # ls \<Rightarrow> \<not> front_matter_delimiter l"
  then show "extract_front_matter t = (Map.empty, py_splitlines t)"
    by (simp add: extract_front_matter_def split: list.splits)
qed

lemma example_two_titles_lines:
  "py_splitlines two_titles_document = ''---'' # [''title: A'', ''Title : B''] @ ''---'' # [''body'']"
  by code_simp

lemma example_two_titles_shape:
  "front_matter_delimiter ''---'' \<and> (\<forall>l \<in> set [''title: A'', ''Title : B'']. \<not> front_matter_delimiter l)"
  by code_simp

lemma example_two_titles_last:
  "last_wins [''title: A'', ''Title : B''] ''title'' = Some ''B''"
  by code_simp

lemma example_plain_lines:
  "py_splitlines ''Hello.'' = [''Hello.''] \<and> \<not> front_matter_delimiter ''Hello.''"
  by code_simp

theorem extract_front_matter_last_wins_witness:
  "extract_front_matter two_titles_document = (last_wins [''title: A'', ''Title : B''], [''body'']) \<and>
   last_wins [''title: A'', ''Title : B''] ''title'' = Some ''B'' \<and>
   extract_front_matter ''Hello.'' = (Map.empty, [''Hello.''])"
  using extract_front_matter_last_wins[of two_titles_document "''---''" "[''title: A'', ''Title : B'']" "''---''" "[''body'']"]
    extract_front_matter_last_wins[of "''Hello.''"]
    example_two_titles_lines example_two_titles_shape example_two_titles_last example_plain_lines
  by simp

text \<open>
  The claim as written, that the first occurrence of a key wins, fails on a front matter
  with \<open>title: A\<close> and then \<open>title: B\<close>: the title is \<open>B\<close>.
\<close>

theorem front_matter_first_occurrence_overwritten:
  "fst (extract_front_matter repeated_title_document) ''title'' = Some ''B''"
  by code_simp

subsection \<open>Newline modes\<close>

lemma re_sub_scan_skip:
  assumes "ignores_prev m"
  shows "re_sub_scan m p j s = re_sub_scan m q 0 (drop j s)"
proof (induction s arbitrary: p q j)
  case Nil
  then show ?case by simp
next
  case (Cons c cs)
  show ?case
  proof (cases j)
    case 0
    have "m p (c # cs) = m q (c # cs)" using assms by (simp add: ignores_prev_def)
    then show ?thesis using 0 by simp
  next
    case (Suc k)
    then show ?thesis using Cons.IH[of "Some c" k q] by simp
  qed
qed

lemma m_newlines_ignores: "ignores_prev (m_newlines k rep)"
  by (simp add: ignores_prev_def m_newlines_def)

lemma m_newline_ignores: "ignores_prev m_newline"
  by (simp add: ignores_prev_def m_newline_def)

lemma scan_every_run:
  "re_sub_scan (m_newlines 1 rep) p 0 s = replace_line_break_runs (\<lambda>n. rep) s"
proof (induction "\<lambda>n::nat. rep" s arbitrary: p rule: replace_line_break_runs.induct)
  case 1
  then show ?case by simp
next
  case (2 c cs)
  show ?case
  proof (cases "c = LF")
    case True
    have "re_sub_scan (m_newlines 1 rep) (Some c) (length (takeWhile (\<lambda>x. x = LF) cs)) cs =
          re_sub_scan (m_newlines 1 rep) None 0 (dropWhile (\<lambda>x. x = LF) cs)"
      by (subst re_sub_scan_skip[OF m_newlines_ignores, where q=None]) (simp add: dropWhile_eq_drop)
    then show ?thesis using True 2(1)[OF True] by (simp add: m_newlines_def)
  next
    case False
    then show ?thesis using 2(2)[OF False] by (simp add: m_newlines_def)
  qed
qed

lemma scan_long_runs:
  "re_sub_scan (m_newlines 2 rep) p 0 s =
     replace_line_break_runs (\<lambda>n. if 2 \<le> n then rep else [LF]) s"
proof (induction "\<lambda>n::nat. if 2 \<le> n then rep else [LF]" s arbitrary: p
    rule: replace_line_break_runs.induct)
  case 1
  then show ?case by simp
next
  case (2 c cs)
  show ?case
  proof (cases "c = LF")
    case True
    show ?thesis
    proof (cases "takeWhile (\<lambda>x. x = LF) cs = []")
      case e: True
      then have "dropWhile (\<lambda>x. x = LF) cs = cs" by (cases cs) (auto split: if_splits)
      then show ?thesis using True e 2(1)[OF True] by (simp add: m_newlines_def)
    next
      case ne: False
      have "re_sub_scan (m_newlines 2 rep) (Some c) (length (takeWhile (\<lambda>x. x = LF) cs)) cs =
          re_sub_scan (m_newlines 2 rep) None 0 (dropWhile (\<lambda>x. x = LF) cs)"
        by (subst re_sub_scan_skip[OF m_newlines_ignores, where q=None]) (simp add: dropWhile_eq_drop)
      moreover have "2 \<le> Suc (length (takeWhile (\<lambda>x. x = LF) cs))" using ne by (cases "takeWhile (\<lambda>x. x = LF) cs") auto
      ultimately show ?thesis using True 2(1)[OF True] by (simp add: m_newlines_def)
    qed
  next
    case False
    then show ?thesis using 2(2)[OF False] by (simp add: m_newlines_def)
  qed
qed

lemma scan_each_line_feed:
  "re_sub_scan m_newline p 0 s = map (\<lambda>c. if c = LF then CHR '' '' else c) s"
  by (induction s arbitrary: p) (auto simp: m_newline_def)

lemma map_over_runs:
  assumes "\<And>c. c \<noteq> LF \<Longrightarrow> g c = c"
  shows "map g (replace_line_break_runs f s) = replace_line_break_runs (\<lambda>n. map g (f n)) s"
  by (induction f s rule: replace_line_break_runs.induct) (auto simp: assms)

lemma strip_subset: "set (py_strip s) \<subseteq> set s"
  using strip_sublist set_mono_sublist by blast


text \<open>
  Claim C5. \<open>_apply_newline_mode\<close>, for every text and every break string that holds no
  backslash and no line feed, after \<open>\r\n\<close> has become \<open>\n\<close>: in the mode \<open>single\<close>
  every run of one or more line feeds is replaced by the break marker (the break string
  stripped, between two spaces); in the mode \<open>double\<close> every run of two or more is
  replaced by the break marker and every line feed that stands alone by a space; in the
  mode \<open>none\<close> every line feed becomes a space; any other mode raises \<open>ValueError\<close>.
\<close>

theorem apply_newline_mode_runs:
  assumes "CHR 0x5C \<notin> set break_string" and "LF \<notin> set break_string"
  shows "apply_newline_mode mode t break_string =
     (let t1 = py_replace [CR, LF] [LF] t;
          marker = '' '' @ py_strip break_string @ '' ''
      in if mode = ''single'' then Inr (replace_line_break_runs (\<lambda>n. marker) t1)
         else if mode = ''double''
           then Inr (replace_line_break_runs (\<lambda>n. if 2 \<le> n then marker else '' '') t1)
         else if mode = ''none'' then Inr (map (\<lambda>c. if c = LF then CHR '' '' else c) t1)
         else Inl (ValueError (''Invalid newline mode: '' @ mode)))"
proof -
  let ?marker = "'' '' @ py_strip break_string @ '' ''"
  let ?g = "\<lambda>c. if c = LF then CHR '' '' else c"
  have "LF \<notin> set (py_strip break_string)" using assms(2) strip_subset by blast
  then have "map ?g (py_strip break_string) = py_strip break_string"
    by (intro map_idI) auto
  then have m: "map ?g ?marker = ?marker" by simp
  have "\<And>s. map ?g (replace_line_break_runs (\<lambda>n. if 2 \<le> n then ?marker else [LF]) s) =
      replace_line_break_runs (\<lambda>n. map ?g (if 2 \<le> n then ?marker else [LF])) s"
    by (rule map_over_runs) simp
  moreover have "(\<lambda>n::nat. map ?g (if 2 \<le> n then ?marker else [LF])) =
      (\<lambda>n. if 2 \<le> n then ?marker else '' '')"
    using m by auto
  ultimately have d: "\<And>s. map ?g (replace_line_break_runs (\<lambda>n. if 2 \<le> n then ?marker else [LF]) s) =
      replace_line_break_runs (\<lambda>n. if 2 \<le> n then ?marker else '' '') s"
    by simp
  show ?thesis
    unfolding apply_newline_mode_def re_sub_def Let_def scan_every_run scan_long_runs
      scan_each_line_feed d
    by simp
qed

theorem apply_newline_mode_runs_witness:
  "CHR 0x5C \<notin> set '' @BRK#'' \<and> LF \<notin> set '' @BRK#'' \<and>
   apply_newline_mode ''single'' (''a'' @ [CR, LF, CR, LF] @ ''b'' @ [LF] @ ''c'') '' @BRK#'' =
     Inr ''a @BRK# b @BRK# c'' \<and>
   apply_newline_mode ''double'' (''a'' @ [CR, LF, CR, LF] @ ''b'' @ [LF] @ ''c'') '' @BRK#'' =
     Inr ''a @BRK# b c'' \<and>
   apply_newline_mode ''none'' (''a'' @ [CR, LF, CR, LF] @ ''b'' @ [LF] @ ''c'') '' @BRK#'' =
     Inr ''a  b c'' \<and>
   apply_newline_mode ''triple'' (''a'' @ [CR, LF, CR, LF] @ ''b'' @ [LF] @ ''c'') '' @BRK#'' =
     Inl (ValueError ''Invalid newline mode: triple'')"
proof -
  have h: "CHR 0x5C \<notin> set '' @BRK#''" "LF \<notin> set '' @BRK#''" by simp_all
  have s: "py_strip '' @BRK#'' = ''@BRK#''"
    by (simp add: py_strip_def py_lstrip_def py_rstrip_def py_isspace_def)
  show ?thesis
    using apply_newline_mode_runs[OF h, of "''single''" "''a'' @ [CR, LF, CR, LF] @ ''b'' @ [LF] @ ''c''"]
      apply_newline_mode_runs[OF h, of "''double''" "''a'' @ [CR, LF, CR, LF] @ ''b'' @ [LF] @ ''c''"]
      apply_newline_mode_runs[OF h, of "''none''" "''a'' @ [CR, LF, CR, LF] @ ''b'' @ [LF] @ ''c''"]
      apply_newline_mode_runs[OF h, of "''triple''" "''a'' @ [CR, LF, CR, LF] @ ''b'' @ [LF] @ ''c''"]
    by (simp add: s)
qed

subsection \<open>Chapters\<close>

lemma close_chapter_counter:
  assumes "close_chapter p env brk st = Inr st'" "fallback_index st = length (chapters st) + 1"
  shows "fallback_index st' = length (chapters st') + 1"
  using assms by (auto simp: close_chapter_def split: if_splits sum.splits)

lemma scan_lines_counter:
  "scan_lines p env brk ls st0 = Inr st \<Longrightarrow> fallback_index st0 = length (chapters st0) + 1 \<Longrightarrow>
     fallback_index st = length (chapters st) + 1"
proof (induction ls arbitrary: st0)
  case Nil
  then show ?case by simp
next
  case (Cons l ls)
  show ?case
  proof (cases "chapter_heading l")
    case False
    then have "scan_lines p env brk ls (st0\<lparr>current_lines := current_lines st0 @ [l]\<rparr>) = Inr st"
      using Cons.prems(1) by (auto simp: chapter_heading_def split: option.splits if_splits)
    from Cons.IH[OF this] Cons.prems(2) show ?thesis by simp
  next
    case True
    then obtain level h where h: "heading_match l = Some (level, h)" "level \<le> 2"
      by (auto simp: chapter_heading_def split: option.splits)
    then obtain st1 where c: "close_chapter p env brk st0 = Inr st1"
      and s: "scan_lines p env brk ls (st1\<lparr>current_title := Some (py_strip h), current_lines := []\<rparr>) = Inr st"
      using Cons.prems(1) by (auto split: sum.splits)
    have "fallback_index st1 = length (chapters st1) + 1"
      using close_chapter_counter[OF c Cons.prems(2)] .
    with Cons.IH[OF s] show ?thesis by simp
  qed
qed

text \<open>
  Claim C8, as amended. In every state the loop of \<open>get_chapters\<close> reaches, the counter
  \<open>fallback_index\<close> is one more than the number of all chapters emitted so far. So a
  chapter that is closed with no heading title (no heading before it, or a heading
  without text) and has a text is titled \<open>Chapter n\<close>, sanitized, where \<open>n\<close> is its
  position, from 1, among all the chapters of the result, inside the loop and behind it;
  and closing a chapter that has a heading title advances the counter as well.
\<close>

theorem fallback_title_counts_every_chapter:
  assumes "scan_lines p env brk ls scan_start = Inr st"
  shows "fallback_index st = length (chapters st) + 1 \<and>
    (build_chapter_text p env (current_lines st) brk (current_title st) = Inr tx \<and> tx \<noteq> [] \<and>
       (current_title st = None \<and> current_lines st \<noteq> [] \<or> current_title st = Some []) \<longrightarrow>
     close_chapter p env brk st =
       Inr (st\<lparr>chapters := chapters st @
                 [(sanitize_title env (''Chapter '' @ py_str_nat (length (chapters st) + 1)) brk, tx)],
               fallback_index := length (chapters st) + 2\<rparr>) \<and>
     close_last p env brk st =
       Inr (chapters st @
              [(sanitize_title env (''Chapter '' @ py_str_nat (length (chapters st) + 1)) brk, tx)])) \<and>
    (build_chapter_text p env (current_lines st) brk (current_title st) = Inr tx \<and> tx \<noteq> [] \<and>
       current_title st = Some h \<and> h \<noteq> [] \<longrightarrow>
     close_chapter p env brk st =
       Inr (st\<lparr>chapters := chapters st @ [(sanitize_title env h brk, tx)],
               fallback_index := length (chapters st) + 2\<rparr>))"
proof -
  have inv: "fallback_index st = length (chapters st) + 1"
    using scan_lines_counter[OF assms] by (simp add: scan_start_def)
  show ?thesis
    using inv by (auto simp: close_chapter_def close_last_def title_source_def)
qed

lemma example_scan_empty_heading:
  "scan_lines parser_x plain_env DEFAULT_BREAK_STRING [''# A'', ''x'', ''# '', ''y''] scan_start =
     Inr \<lparr>chapters = [(''A'', ''A @BRK# x'')], current_title = Some [], current_lines = [''y''],
          fallback_index = 2\<rparr>"
  by code_simp

lemma example_build_y:
  "build_chapter_text parser_x plain_env [''y''] DEFAULT_BREAK_STRING (Some []) = Inr ''y''"
  by code_simp

lemma example_scan_heading:
  "scan_lines parser_x plain_env DEFAULT_BREAK_STRING [''# A'', ''x''] scan_start =
     Inr \<lparr>chapters = [], current_title = Some ''A'', current_lines = [''x''], fallback_index = 1\<rparr>"
  by code_simp

lemma example_build_A:
  "build_chapter_text parser_x plain_env [''x''] DEFAULT_BREAK_STRING (Some ''A'') = Inr ''A @BRK# x''"
  by code_simp

theorem fallback_title_counts_every_chapter_witness:
  "close_last parser_x plain_env DEFAULT_BREAK_STRING
     \<lparr>chapters = [(''A'', ''A @BRK# x'')], current_title = Some [], current_lines = [''y''],
      fallback_index = 2\<rparr> =
     Inr [(''A'', ''A @BRK# x''), (''Chapter 2'', ''y'')] \<and>
   close_chapter parser_x plain_env DEFAULT_BREAK_STRING
     \<lparr>chapters = [], current_title = Some ''A'', current_lines = [''x''], fallback_index = 1\<rparr> =
     Inr \<lparr>chapters = [(''A'', ''A @BRK# x'')], current_title = Some ''A'', current_lines = [''x''],
          fallback_index = 2\<rparr>"
  using fallback_title_counts_every_chapter[OF example_scan_empty_heading, where tx="''y''"]
    fallback_title_counts_every_chapter[OF example_scan_heading, where tx="''A @BRK# x''" and h="''A''"]
    example_build_y example_build_A
  by (simp add: plain_env_def keep_title_def py_str_nat.simps)

text \<open>
  The claim as written, that only the chapters with a fallback title advance the counter,
  fails on a document whose second heading has no text: its chapter is the first with a
  fallback title and is \<open>Chapter 2\<close>.
\<close>

theorem heading_chapter_advances_fallback_counter:
  "get_chapters (MarkdownBookParser ''x.md'' ''double'' False False empty_heading_document)
     plain_env DEFAULT_BREAK_STRING =
   Inr [(''A'', ''A @BRK# x''), (''Chapter 2'', ''y'')]"
  by code_simp


lemma scan_lines_no_chapter_heading:
  "\<forall>l \<in> set ls. \<not> chapter_heading l \<Longrightarrow>
     scan_lines p env brk ls st = Inr (st\<lparr>current_lines := current_lines st @ ls\<rparr>)"
proof (induction ls arbitrary: st)
  case Nil
  then show ?case by simp
next
  case (Cons l ls)
  have "\<not> chapter_heading l" using Cons.prems by simp
  then have "scan_lines p env brk (l # ls) st =
      scan_lines p env brk ls (st\<lparr>current_lines := current_lines st @ [l]\<rparr>)"
    by (auto simp: chapter_heading_def split: option.splits)
  then show ?case using Cons by simp
qed

lemma build_chapter_text_nothing: "build_chapter_text p env [] brk None = Inr []"
  by (simp add: build_chapter_text_def py_strip_def py_lstrip_def py_rstrip_def)

lemma build_chapter_text_returns:
  assumes "newline_mode p \<in> {''single'', ''double'', ''none''}" "search_and_replaces env = []"
  shows "\<exists>t. build_chapter_text p env ls brk h = Inr t"
proof -
  have nl: "\<And>t e. apply_newline_mode (newline_mode p) t brk \<noteq> Inl e"
    using assms(1) by (auto simp: apply_newline_mode_def Let_def)
  show ?thesis
    unfolding build_chapter_text_def Let_def
    by (simp add: nl assms(2) split: sum.splits)
qed

lemma close_chapter_returns:
  assumes "newline_mode p \<in> {''single'', ''double'', ''none''}" "search_and_replaces env = []"
  shows "\<exists>st'. close_chapter p env brk st = Inr st'"
  using build_chapter_text_returns[OF assms, of "current_lines st" brk "current_title st"]
  by (auto simp: close_chapter_def)

lemma scan_lines_returns:
  assumes "newline_mode p \<in> {''single'', ''double'', ''none''}" "search_and_replaces env = []"
  shows "\<exists>st'. scan_lines p env brk ls st = Inr st'"
proof (induction ls arbitrary: st)
  case Nil
  then show ?case by simp
next
  case (Cons l ls)
  obtain st1 where c: "close_chapter p env brk st = Inr st1"
    using close_chapter_returns[OF assms] by blast
  show ?case using Cons[of "st\<lparr>current_lines := current_lines st @ [l]\<rparr>"] c
      Cons[of "st1\<lparr>current_title := Some (py_strip h), current_lines := []\<rparr>" for h]
    by (auto split: option.splits)
qed

lemma close_last_returns:
  assumes "newline_mode p \<in> {''single'', ''double'', ''none''}" "search_and_replaces env = []"
  shows "\<exists>chs. close_last p env brk st = Inr chs"
  using build_chapter_text_returns[OF assms, of "current_lines st" brk "current_title st"]
  by (auto simp: close_last_def)

lemma whole_book_returns:
  assumes "newline_mode p \<in> {''single'', ''double'', ''none''}" "search_and_replaces env = []"
  shows "\<exists>chs'. whole_book p env brk chs = Inr chs'"
  using build_chapter_text_returns[OF assms, of "body_lines p" brk "Some (get_book_title p)"]
  by (auto simp: whole_book_def)

lemma get_chapters_returns:
  assumes "newline_mode p \<in> {''single'', ''double'', ''none''}" "search_and_replaces env = []"
  shows "\<exists>chs. get_chapters p env brk = Inr chs"
proof -
  obtain st where s: "scan_lines p env brk (body_lines p) scan_start = Inr st"
    using scan_lines_returns[OF assms] by blast
  obtain chs where c: "close_last p env brk st = Inr chs"
    using close_last_returns[OF assms] by blast
  show ?thesis using s c whole_book_returns[OF assms, of brk chs]
    by (simp add: get_chapters_def)
qed

lemma whole_book_not_empty:
  assumes "whole_book p env brk chs = Inr chs'" "body_lines p \<noteq> []"
    "build_chapter_text p env (body_lines p) brk (Some (get_book_title p)) = Inr t" "t \<noteq> []"
  shows "chs' \<noteq> []"
  using assms by (cases "chs = []") (auto simp: whole_book_def)

lemma get_chapters_not_empty:
  assumes "get_chapters p env brk = Inr chs" "body_lines p \<noteq> []"
    "build_chapter_text p env (body_lines p) brk (Some (get_book_title p)) = Inr t" "t \<noteq> []"
  shows "chs \<noteq> []"
proof -
  obtain st c where "whole_book p env brk c = Inr chs"
    using assms(1) by (auto simp: get_chapters_def split: sum.splits)
  from whole_book_not_empty[OF this assms(2,3,4)] show ?thesis .
qed

lemma get_chapters_after_scan:
  assumes "scan_lines p env brk (body_lines p) scan_start = Inr st" "close_last p env brk st = Inr chs"
  shows "get_chapters p env brk =
     (if chs \<noteq> [] \<or> body_lines p = [] then Inr chs
      else (case build_chapter_text p env (body_lines p) brk (Some (get_book_title p)) of
              Inl e \<Rightarrow> Inl e
            | Inr t \<Rightarrow>
                if t \<noteq> []
                then Inr [(sanitize_title env
                             (if get_book_title p \<noteq> [] then get_book_title p else ''Chapter 1'')
                             brk, t)]
                else Inr []))"
  using assms by (auto simp: get_chapters_def whole_book_def split: sum.splits)

lemma get_chapters_no_chapter_heading:
  assumes "\<forall>l \<in> set (body_lines p). \<not> chapter_heading l"
  shows "get_chapters p env brk =
     (case build_chapter_text p env (body_lines p) brk None of
        Inl e \<Rightarrow> Inl e
      | Inr t \<Rightarrow>
          if t \<noteq> [] then Inr [(sanitize_title env ''Chapter 1'' brk, t)]
          else if body_lines p = [] then Inr []
          else (case build_chapter_text p env (body_lines p) brk (Some (get_book_title p)) of
                  Inl e \<Rightarrow> Inl e
                | Inr t' \<Rightarrow>
                    if t' \<noteq> []
                    then Inr [(sanitize_title env
                                 (if get_book_title p \<noteq> [] then get_book_title p else ''Chapter 1'')
                                 brk, t')]
                    else Inr []))"
proof -
  have s: "scan_lines p env brk (body_lines p) scan_start =
      Inr (scan_start\<lparr>current_lines := body_lines p\<rparr>)"
    using scan_lines_no_chapter_heading[OF assms, of p env brk scan_start]
    by (simp add: scan_start_def)
  have one: "py_str_nat (Suc 0) = ''1''" by (simp add: py_str_nat.simps)
  show ?thesis
  proof (cases "body_lines p = []")
    case True
    then show ?thesis
      unfolding get_chapters_def s
      by (simp add: close_last_def whole_book_def scan_start_def build_chapter_text_nothing)
  next
    case False
    show ?thesis
    proof (cases "build_chapter_text p env (body_lines p) brk None")
      case (Inl e)
      then show ?thesis
        unfolding get_chapters_def s using False
        by (simp add: close_last_def scan_start_def)
    next
      case (Inr t)
      show ?thesis
      proof (cases "t = []")
        case ne: False
        then show ?thesis
          unfolding get_chapters_def s using False Inr
          by (simp add: close_last_def whole_book_def scan_start_def title_source_def one)
      next
        case e: True
        then show ?thesis
          unfolding get_chapters_def s using False Inr
          by (simp add: close_last_def whole_book_def scan_start_def split: sum.splits)
      qed
    qed
  qed
qed

text \<open>
  Claim C6, as amended. For every document whose body has lines and for which the text
  built from the title of the book and the whole body is not empty, \<open>get_chapters\<close>
  gives at least one chapter whenever it returns, with or without headings in the body,
  and it returns when the newline mode is one of the three and the user has no rules.
  For every document, what \<open>get_chapters\<close> returns after a scan that has ended with the
  chapters \<open>chs\<close> is: these chapters, when there are some or the body has no line; and
  else, one chapter under the sanitized title of the book (\<open>Chapter 1\<close> if that title is
  empty), with the text built from that title and the body, if this text is not empty, and
  no chapter otherwise. And for a body without a heading of level 1 or 2: when the text
  built from the body alone is not empty, exactly one chapter, under the sanitized
  fallback title \<open>Chapter 1\<close>; when it is empty, what the title of the book gives, as
  above.
\<close>

theorem get_chapters_book_title_fallback:
  "(body_lines p \<noteq> [] \<and>
    build_chapter_text p env (body_lines p) brk (Some (get_book_title p)) = Inr t \<and> t \<noteq> [] \<longrightarrow>
      (\<forall>r. get_chapters p env brk = Inr r \<longrightarrow> r \<noteq> []) \<and>
      (newline_mode p \<in> {''single'', ''double'', ''none''} \<and> search_and_replaces env = [] \<longrightarrow>
         (\<exists>r. get_chapters p env brk = Inr r \<and> r \<noteq> []))) \<and>
   (scan_lines p env brk (body_lines p) scan_start = Inr st \<and> close_last p env brk st = Inr chs \<longrightarrow>
      get_chapters p env brk =
        (if chs \<noteq> [] \<or> body_lines p = [] then Inr chs
         else (case build_chapter_text p env (body_lines p) brk (Some (get_book_title p)) of
                 Inl e \<Rightarrow> Inl e
               | Inr t' \<Rightarrow>
                   if t' \<noteq> []
                   then Inr [(sanitize_title env
                                (if get_book_title p \<noteq> [] then get_book_title p else ''Chapter 1'')
                                brk, t')]
                   else Inr []))) \<and>
   ((\<forall>l \<in> set (body_lines p). \<not> chapter_heading l) \<longrightarrow>
      get_chapters p env brk =
        (case build_chapter_text p env (body_lines p) brk None of
           Inl e \<Rightarrow> Inl e
         | Inr t' \<Rightarrow>
             if t' \<noteq> [] then Inr [(sanitize_title env ''Chapter 1'' brk, t')]
             else if body_lines p = [] then Inr []
             else (case build_chapter_text p env (body_lines p) brk (Some (get_book_title p)) of
                     Inl e \<Rightarrow> Inl e
                   | Inr t'' \<Rightarrow>
                       if t'' \<noteq> []
                       then Inr [(sanitize_title env
                                    (if get_book_title p \<noteq> [] then get_book_title p else ''Chapter 1'')
                                    brk, t'')]
                       else Inr [])))"
proof (intro conjI impI allI)
  fix r
  assume a: "body_lines p \<noteq> [] \<and>
    build_chapter_text p env (body_lines p) brk (Some (get_book_title p)) = Inr t \<and> t \<noteq> []"
    and r: "get_chapters p env brk = Inr r"
  show "r \<noteq> []" using get_chapters_not_empty[OF r] a by blast
next
  assume a: "body_lines p \<noteq> [] \<and>
    build_chapter_text p env (body_lines p) brk (Some (get_book_title p)) = Inr t \<and> t \<noteq> []"
    and m: "newline_mode p \<in> {''single'', ''double'', ''none''} \<and> search_and_replaces env = []"
  obtain r where r: "get_chapters p env brk = Inr r"
    using get_chapters_returns m by blast
  then have "r \<noteq> []" using get_chapters_not_empty[OF r] a by blast
  then show "\<exists>r. get_chapters p env brk = Inr r \<and> r \<noteq> []" using r by blast
next
  assume "scan_lines p env brk (body_lines p) scan_start = Inr st \<and> close_last p env brk st = Inr chs"
  then show "get_chapters p env brk =
        (if chs \<noteq> [] \<or> body_lines p = [] then Inr chs
         else (case build_chapter_text p env (body_lines p) brk (Some (get_book_title p)) of
                 Inl e \<Rightarrow> Inl e
               | Inr t' \<Rightarrow>
                   if t' \<noteq> []
                   then Inr [(sanitize_title env
                                (if get_book_title p \<noteq> [] then get_book_title p else ''Chapter 1'')
                                brk, t')]
                   else Inr []))"
    using get_chapters_after_scan by blast
next
  assume "\<forall>l \<in> set (body_lines p). \<not> chapter_heading l"
  then show "get_chapters p env brk =
        (case build_chapter_text p env (body_lines p) brk None of
           Inl e \<Rightarrow> Inl e
         | Inr t' \<Rightarrow>
             if t' \<noteq> [] then Inr [(sanitize_title env ''Chapter 1'' brk, t')]
             else if body_lines p = [] then Inr []
             else (case build_chapter_text p env (body_lines p) brk (Some (get_book_title p)) of
                     Inl e \<Rightarrow> Inl e
                   | Inr t'' \<Rightarrow>
                       if t'' \<noteq> []
                       then Inr [(sanitize_title env
                                    (if get_book_title p \<noteq> [] then get_book_title p else ''Chapter 1'')
                                    brk, t'')]
                       else Inr []))"
    by (rule get_chapters_no_chapter_heading)
qed

lemma example_hello_body:
  "body_lines (MarkdownBookParser ''x.md'' ''double'' False False ''Hello.'') = [''Hello.''] \<and>
   \<not> chapter_heading ''Hello.''"
  by code_simp

lemma example_hello_text:
  "build_chapter_text (MarkdownBookParser ''x.md'' ''double'' False False ''Hello.'') plain_env
     [''Hello.''] DEFAULT_BREAK_STRING None = Inr ''Hello.''"
  by code_simp

lemma example_fenced_body:
  "body_lines (MarkdownBookParser ''x.md'' ''double'' False False fenced_document) =
     [fence, ''x = 1'', fence] \<and>
   \<not> chapter_heading fence \<and> \<not> chapter_heading ''x = 1'' \<and>
   get_book_title (MarkdownBookParser ''x.md'' ''double'' False False fenced_document) = ''x''"
  by code_simp

lemma example_fenced_text:
  "build_chapter_text (MarkdownBookParser ''x.md'' ''double'' False False fenced_document) plain_env
     [fence, ''x = 1'', fence] DEFAULT_BREAK_STRING None = Inr [] \<and>
   build_chapter_text (MarkdownBookParser ''x.md'' ''double'' False False fenced_document) plain_env
     [fence, ''x = 1'', fence] DEFAULT_BREAK_STRING (Some ''x'') = Inr ''x @BRK#''"
  by code_simp

lemma example_titled_code_body:
  "body_lines (MarkdownBookParser ''x.md'' ''double'' False False titled_code_document) =
     [''# '', fence, ''x = 1'', fence] \<and>
   chapter_heading ''# '' \<and>
   get_book_title (MarkdownBookParser ''x.md'' ''double'' False False titled_code_document) = ''T'' \<and>
   newline_mode (MarkdownBookParser ''x.md'' ''double'' False False titled_code_document) = ''double''"
  by code_simp

lemma example_titled_code_scan:
  "scan_lines (MarkdownBookParser ''x.md'' ''double'' False False titled_code_document) plain_env
     DEFAULT_BREAK_STRING [''# '', fence, ''x = 1'', fence] scan_start =
     Inr \<lparr>chapters = [], current_title = Some [], current_lines = [fence, ''x = 1'', fence],
          fallback_index = 1\<rparr> \<and>
   close_last (MarkdownBookParser ''x.md'' ''double'' False False titled_code_document) plain_env
     DEFAULT_BREAK_STRING
     \<lparr>chapters = [], current_title = Some [], current_lines = [fence, ''x = 1'', fence],
      fallback_index = 1\<rparr> = Inr []"
  by code_simp

lemma example_titled_code_text:
  "build_chapter_text (MarkdownBookParser ''x.md'' ''double'' False False titled_code_document)
     plain_env [''# '', fence, ''x = 1'', fence] DEFAULT_BREAK_STRING (Some ''T'') = Inr ''T''"
  by code_simp

theorem get_chapters_book_title_fallback_witness:
  "body_lines (MarkdownBookParser ''x.md'' ''double'' False False ''Hello.'') = [''Hello.''] \<and>
   \<not> chapter_heading ''Hello.'' \<and>
   get_chapters (MarkdownBookParser ''x.md'' ''double'' False False ''Hello.'') plain_env
     DEFAULT_BREAK_STRING = Inr [(''Chapter 1'', ''Hello.'')] \<and>
   body_lines (MarkdownBookParser ''x.md'' ''double'' False False fenced_document) =
     [fence, ''x = 1'', fence] \<and>
   \<not> chapter_heading fence \<and> \<not> chapter_heading ''x = 1'' \<and>
   get_chapters (MarkdownBookParser ''x.md'' ''double'' False False fenced_document) plain_env
     DEFAULT_BREAK_STRING = Inr [(''x'', ''x @BRK#'')] \<and>
   body_lines (MarkdownBookParser ''x.md'' ''double'' False False titled_code_document) =
     [''# '', fence, ''x = 1'', fence] \<and>
   chapter_heading ''# '' \<and>
   scan_lines (MarkdownBookParser ''x.md'' ''double'' False False titled_code_document) plain_env
     DEFAULT_BREAK_STRING [''# '', fence, ''x = 1'', fence] scan_start =
     Inr \<lparr>chapters = [], current_title = Some [], current_lines = [fence, ''x = 1'', fence],
          fallback_index = 1\<rparr> \<and>
   close_last (MarkdownBookParser ''x.md'' ''double'' False False titled_code_document) plain_env
     DEFAULT_BREAK_STRING
     \<lparr>chapters = [], current_title = Some [], current_lines = [fence, ''x = 1'', fence],
      fallback_index = 1\<rparr> = Inr [] \<and>
   build_chapter_text (MarkdownBookParser ''x.md'' ''double'' False False titled_code_document)
     plain_env [''# '', fence, ''x = 1'', fence] DEFAULT_BREAK_STRING (Some ''T'') = Inr ''T'' \<and>
   get_chapters (MarkdownBookParser ''x.md'' ''double'' False False titled_code_document) plain_env
     DEFAULT_BREAK_STRING = Inr [(''T'', ''T'')] \<and>
   (\<exists>r. get_chapters (MarkdownBookParser ''x.md'' ''double'' False False titled_code_document)
          plain_env DEFAULT_BREAK_STRING = Inr r \<and> r \<noteq> [])"
proof -
  let ?H = "MarkdownBookParser ''x.md'' ''double'' False False ''Hello.''"
  let ?F = "MarkdownBookParser ''x.md'' ''double'' False False fenced_document"
  let ?T = "MarkdownBookParser ''x.md'' ''double'' False False titled_code_document"
  let ?st = "\<lparr>chapters = [], current_title = Some [], current_lines = [fence, ''x = 1'', fence],
      fallback_index = 1\<rparr>"
  have h: "\<forall>l \<in> set (body_lines ?H). \<not> chapter_heading l"
    using example_hello_body by simp
  have f: "\<forall>l \<in> set (body_lines ?F). \<not> chapter_heading l"
    using example_fenced_body by simp
  have gh: "get_chapters ?H plain_env DEFAULT_BREAK_STRING = Inr [(''Chapter 1'', ''Hello.'')]"
    using get_chapters_book_title_fallback[where p="?H" and env=plain_env
        and brk=DEFAULT_BREAK_STRING, THEN conjunct2, THEN conjunct2, THEN mp, OF h]
      example_hello_body example_hello_text
    by (simp add: plain_env_def keep_title_def)
  have gf: "get_chapters ?F plain_env DEFAULT_BREAK_STRING = Inr [(''x'', ''x @BRK#'')]"
    using get_chapters_book_title_fallback[where p="?F" and env=plain_env
        and brk=DEFAULT_BREAK_STRING, THEN conjunct2, THEN conjunct2, THEN mp, OF f]
      example_fenced_body example_fenced_text
    by (simp add: plain_env_def keep_title_def)
  have s: "scan_lines ?T plain_env DEFAULT_BREAK_STRING (body_lines ?T) scan_start = Inr ?st \<and>
      close_last ?T plain_env DEFAULT_BREAK_STRING ?st = Inr []"
    using example_titled_code_body example_titled_code_scan by simp
  have bt: "build_chapter_text ?T plain_env (body_lines ?T) DEFAULT_BREAK_STRING
      (Some (get_book_title ?T)) = Inr ''T''"
    using example_titled_code_body example_titled_code_text by simp
  have gt: "get_chapters ?T plain_env DEFAULT_BREAK_STRING = Inr [(''T'', ''T'')]"
    using get_chapters_book_title_fallback[where p="?T" and env=plain_env
        and brk=DEFAULT_BREAK_STRING and st="?st" and chs="[]",
        THEN conjunct2, THEN conjunct1, THEN mp, OF s]
      example_titled_code_body bt
    by (simp add: plain_env_def keep_title_def)
  have a: "body_lines ?T \<noteq> [] \<and>
      build_chapter_text ?T plain_env (body_lines ?T) DEFAULT_BREAK_STRING
        (Some (get_book_title ?T)) = Inr ''T'' \<and> ''T'' \<noteq> []"
    using example_titled_code_body bt by simp
  have m: "newline_mode ?T \<in> {''single'', ''double'', ''none''} \<and>
      search_and_replaces plain_env = []"
    using example_titled_code_body by (simp add: plain_env_def)
  have ex: "\<exists>r. get_chapters ?T plain_env DEFAULT_BREAK_STRING = Inr r \<and> r \<noteq> []"
    using get_chapters_book_title_fallback[where p="?T" and env=plain_env
        and brk=DEFAULT_BREAK_STRING and t="''T''", THEN conjunct1] a m
    by blast
  show ?thesis
    using gh gf gt ex example_hello_body example_fenced_body example_titled_code_body
      example_titled_code_scan example_titled_code_text
    by blast
qed

text \<open>
  The claim as written fails twice. A body without headings, \<open>Hello.\<close>, in the file
  \<open>x.md\<close> gives one chapter under the title \<open>Chapter 1\<close>, not under the title of the
  book, \<open>x\<close>. And a body that holds fenced code only, under a front matter with a
  blank title, is not empty and gives no chapter.
\<close>

theorem body_without_headings_not_as_claimed:
  "get_chapters (MarkdownBookParser ''x.md'' ''double'' False False ''Hello.'') plain_env
     DEFAULT_BREAK_STRING = Inr [(''Chapter 1'', ''Hello.'')] \<and>
   get_book_title (MarkdownBookParser ''x.md'' ''double'' False False ''Hello.'') = ''x'' \<and>
   body_lines (MarkdownBookParser ''x.md'' ''double'' False False code_only_document) =
     [fence, ''x = 1'', fence] \<and>
   get_chapters (MarkdownBookParser ''x.md'' ''double'' False False code_only_document) plain_env
     DEFAULT_BREAK_STRING = Inr []"
  by code_simp

section \<open>Properties of the configuration\<close>



lemma minimax_resolve_ranges:
  "1 / 2 \<le> minimax_resolve_speed raw \<and> minimax_resolve_speed raw \<le> 2 \<and>
   1 / 10 \<le> minimax_resolve_volume raw \<and> minimax_resolve_volume raw \<le> 2 \<and>
   - 12 \<le> minimax_resolve_pitch raw2 \<and> minimax_resolve_pitch raw2 \<le> 12 \<and>
   0 < minimax_resolve_timeout raw3 \<and> 0 < qwen_resolve_timeout raw3"
  by (auto simp: minimax_resolve_speed_def minimax_resolve_volume_def minimax_resolve_pitch_def
      minimax_resolve_timeout_def qwen_resolve_timeout_def Let_def split: option.splits)











end
